theory Spec2Isabelle
  imports Main "HOL-Library.Sublist"
begin

section \<open>JavaScript values used by the gateway\<close>

text \<open>
  The gateway is a Bun HTTP listener that exists in three revisions: the local-disk
  variant (multipart upload of the model itself), the cloud variant of
  \<^verbatim>\<open>src/server/index.ts\<close> and the later cloud variant with CORS headers, a method
  check and a cleanup of the per-request directory. All three share \<^verbatim>\<open>convertFile\<close>;
  the two cloud revisions share the three storage functions.

  Logging is left out: log lines change neither a response nor a file under the files
  root (the log file lies in the logs folder), and the request log of the CORS
  revision is wrapped in a \<^verbatim>\<open>try\<close> that ignores its errors.

  Strings are \<^typ>\<open>string\<close>. A thrown JavaScript error is a value \<open>Exn name message\<close>;
  \<^verbatim>\<open>String(err)\<close> is \<^verbatim>\<open>Error.prototype.toString\<close>.
\<close>

datatype exn = Exn string string

fun String_of :: "exn \<Rightarrow> string" where
  "String_of (Exn n m) = (if m = [] then n else if n = [] then m else n @ '': '' @ m)"

definition startsWith :: "string \<Rightarrow> string \<Rightarrow> bool" where
  "startsWith s p = prefix p s"

definition endsWith :: "string \<Rightarrow> string \<Rightarrow> bool" where
  "endsWith s p = suffix p s"

text \<open>\<^verbatim>\<open>s.slice(a, b)\<close> for indices \<open>0 \<le> a\<close>, \<open>0 \<le> b\<close> within the string.\<close>

definition slice :: "string \<Rightarrow> nat \<Rightarrow> nat \<Rightarrow> string" where
  "slice s a b = take (b - a) (drop a s)"

text \<open>
  \<^verbatim>\<open>s.replace(pat, rep)\<close> with a string pattern: only the first occurrence of \<open>pat\<close>
  is replaced, the empty pattern matches at index 0, and a string without the pattern
  is returned as it is. (The replacement used by the gateway holds no \<^verbatim>\<open>$\<close>, so
  no replacement pattern is expanded.)
\<close>

fun replace :: "string \<Rightarrow> string \<Rightarrow> string \<Rightarrow> string" where
  "replace [] pat rep = (if pat = [] then rep else [])"
| "replace (c # cs) pat rep =
     (if prefix pat (c # cs) then rep @ drop (length pat) (c # cs)
      else c # replace cs pat rep)"

section \<open>path.parse\<close>

text \<open>
  \<^verbatim>\<open>parse\<close> is the POSIX \<^verbatim>\<open>parse\<close> of the runtime's \<^verbatim>\<open>path\<close> module. It scans the
  path from its last character down to \<open>start\<close>, skipping trailing slashes, noting
  the end of the last component, its last dot, and whether anything but dots stands
  before that dot; it stops at the slash in front of the last component.
\<close>

record ParsedPath =
  root :: string
  dir :: string
  base :: string
  ext :: string
  name :: string

record scan =
  startDot :: int
  startPart :: nat
  endIdx :: int
  matchedSlash :: bool
  preDotState :: int

text \<open>
  \<open>parse_scan path start j s\<close> runs the loop \<^verbatim>\<open>for (; i >= start; --i)\<close> from
  \<open>i = j - 1\<close>.
\<close>

fun parse_scan :: "string \<Rightarrow> nat \<Rightarrow> nat \<Rightarrow> scan \<Rightarrow> scan" where
  "parse_scan path start 0 s = s"
| "parse_scan path start (Suc i) s =
     (if i < start then s
      else if path ! i = CHR ''/'' then
        (if matchedSlash s then parse_scan path start i s
         else s\<lparr>startPart := i + 1\<rparr>)
      else
        (let s1 = (if endIdx s = - 1 then s\<lparr>matchedSlash := False, endIdx := int i + 1\<rparr> else s);
             s2 = (if path ! i = CHR ''.'' then
                     (if startDot s1 = - 1 then s1\<lparr>startDot := int i\<rparr>
                      else if preDotState s1 = 1 then s1
                      else s1\<lparr>preDotState := 1\<rparr>)
                   else if startDot s1 = - 1 then s1
                   else s1\<lparr>preDotState := - 1\<rparr>)
         in parse_scan path start i s2))"

definition parse :: "string \<Rightarrow> ParsedPath" where
  "parse path =
     (if path = [] then \<lparr>root = [], dir = [], base = [], ext = [], name = []\<rparr>
      else
        let isAbsolute = (hd path = CHR ''/'');
            start = (if isAbsolute then 1 else 0);
            s = parse_scan path start (length path)
                  \<lparr>startDot = - 1, startPart = 0, endIdx = - 1, matchedSlash = True,
                   preDotState = 0\<rparr>;
            from = (if startPart s = 0 \<and> isAbsolute then 1 else startPart s);
            noExt = (startDot s = - 1 \<or> preDotState s = 0 \<or>
                     (preDotState s = 1 \<and> startDot s = endIdx s - 1 \<and>
                      startDot s = int (startPart s) + 1));
            whole = slice path from (nat (endIdx s));
            r0 = \<lparr>root = (if isAbsolute then ''/'' else []), dir = [], base = [],
                  ext = [], name = []\<rparr>;
            r1 = (if endIdx s = - 1 then r0
                  else if noExt then r0\<lparr>base := whole, name := whole\<rparr>
                  else r0\<lparr>name := slice path from (nat (startDot s)),
                         base := whole,
                         ext := slice path (nat (startDot s)) (nat (endIdx s))\<rparr>)
        in if 0 < startPart s then r1\<lparr>dir := slice path 0 (startPart s - 1)\<rparr>
           else if isAbsolute then r1\<lparr>dir := ''/''\<rparr>
           else r1)"

text \<open>
  For the proofs about \<open>parse\<close>: the start state of the loop, the step it takes on a
  character that is no slash, a scan state moved \<open>a\<close> characters to the right, and the
  test that decides that a component has no extension.
\<close>

definition scan0 :: scan where
  "scan0 = \<lparr>startDot = - 1, startPart = 0, endIdx = - 1, matchedSlash = True, preDotState = 0\<rparr>"

definition scan_step :: "char \<Rightarrow> nat \<Rightarrow> scan \<Rightarrow> scan" where
  "scan_step ch i s =
     (let s1 = (if endIdx s = - 1 then s\<lparr>matchedSlash := False, endIdx := int i + 1\<rparr> else s)
      in if ch = CHR ''.'' then
           (if startDot s1 = - 1 then s1\<lparr>startDot := int i\<rparr>
            else if preDotState s1 = 1 then s1
            else s1\<lparr>preDotState := 1\<rparr>)
         else if startDot s1 = - 1 then s1
         else s1\<lparr>preDotState := - 1\<rparr>)"

definition shift_scan :: "nat \<Rightarrow> scan \<Rightarrow> scan" where
  "shift_scan a t =
     t\<lparr>startDot := (if startDot t = - 1 then - 1 else startDot t + int a),
       endIdx := (if endIdx t = - 1 then - 1 else endIdx t + int a)\<rparr>"

definition no_ext :: "scan \<Rightarrow> bool" where
  "no_ext t = (startDot t = - 1 \<or> preDotState t = 0 \<or>
               (preDotState t = 1 \<and> startDot t = endIdx t - 1 \<and>
                startDot t = int (startPart t) + 1))"

section \<open>Requests, responses and the outside world\<close>

datatype json = JString string | JObject "(string \<times> json) list"

datatype body = NoBody | Text string | Json json | FileBody string

text \<open>
  A response keeps its status, the headers the handler itself passes in the init
  object, and its body. \<^verbatim>\<open>Response.json(v)\<close> and \<^verbatim>\<open>new Response(b)\<close> without an init
  object have status 200 and pass no header.
\<close>

record response =
  status :: nat
  headers :: "(string \<times> string) list"
  body :: body

definition Response :: "body \<Rightarrow> nat \<Rightarrow> (string \<times> string) list \<Rightarrow> response" where
  "Response b st hs = \<lparr>status = st, headers = hs, body = b\<rparr>"

definition Response_json :: "json \<Rightarrow> nat \<Rightarrow> (string \<times> string) list \<Rightarrow> response" where
  "Response_json v st hs = Response (Json v) st hs"

definition message :: "string \<Rightarrow> json" where
  "message m = JObject [(''message'', JString m)]"

text \<open>
  A multipart field is a string or a \<^verbatim>\<open>File\<close> with its name. \<^verbatim>\<open>req.formData()\<close>
  rejects when the body is no form; \<^verbatim>\<open>formdata.get(k)\<close> is the first value of \<open>k\<close>
  or \<^verbatim>\<open>null\<close>. The field \<open>req_method\<close> is \<^verbatim>\<open>req.method\<close>.
\<close>

datatype form_value = FormString string | FormFile string

record request =
  req_method :: string
  pathname :: string
  searchParams :: "(string \<times> string) list"
  formData :: "exn + (string \<times> form_value) list"

datatype sign_action = Read_action

record sign_options =
  action :: sign_action
  expires :: int

text \<open>
  What the handler asks of the outside, in order: directories made and removed, files
  written, the subprocess spawned with its argument vector, and the calls to the
  storage SDK.
\<close>

datatype effect =
    Mkdir string
  | RmRf string
  | WriteFile string
  | Spawn "string list"
  | Download string string string
  | Upload string string string
  | Sign string string sign_options

text \<open>
  A subprocess either cannot be spawned (\<^verbatim>\<open>Bun.spawnSync\<close> throws) or exits, having
  written to its standard error and having created some files.
\<close>

datatype spawn_outcome = SpawnFails exn | Exited string "string list"

text \<open>
  The answers of the outside world to one request: the identifier drawn by
  \<^verbatim>\<open>crypto.randomUUID()\<close>, the clock read by \<^verbatim>\<open>Date.now()\<close> (milliseconds), and
  for each external call whether it fails and with which error.
\<close>

record world =
  randomUUID :: string
  Date_now :: int
  mkdir_error :: "string \<Rightarrow> exn option"
  rm_error :: "string \<Rightarrow> exn option"
  write_error :: "string \<Rightarrow> exn option"
  spawn_result :: "string list \<Rightarrow> spawn_outcome"
  download_error :: "string \<Rightarrow> string \<Rightarrow> exn option"
  upload_error :: "string \<Rightarrow> string \<Rightarrow> string \<Rightarrow> exn option"
  signed_url :: "string \<Rightarrow> string \<Rightarrow> sign_options \<Rightarrow> exn + string"

text \<open>
  The state threaded through a request: the paths that exist on the local disk, the
  effects so far, and the handler's local variable \<^verbatim>\<open>dir\<close> of the cleanup variant
  (\<^verbatim>\<open>null\<close> is \<open>None\<close>).
\<close>

record state =
  fs :: "string list"
  effects :: "effect list"
  tmp_dir :: "string option"

type_synonym 'a io = "state \<Rightarrow> (exn + 'a) \<times> state"

definition return_io :: "'a \<Rightarrow> 'a io" where
  "return_io a = (\<lambda>s. (Inr a, s))"

definition throw :: "exn \<Rightarrow> 'a io" where
  "throw e = (\<lambda>s. (Inl e, s))"

definition bind_io :: "'a io \<Rightarrow> ('a \<Rightarrow> 'b io) \<Rightarrow> 'b io" where
  "bind_io m f = (\<lambda>s. case m s of (Inl e, s1) \<Rightarrow> (Inl e, s1) | (Inr a, s1) \<Rightarrow> f a s1)"

definition try_catch :: "'a io \<Rightarrow> (exn \<Rightarrow> 'a io) \<Rightarrow> 'a io" where
  "try_catch m h = (\<lambda>s. case m s of (Inl e, s1) \<Rightarrow> h e s1 | (Inr a, s1) \<Rightarrow> (Inr a, s1))"

text \<open>
  \<^verbatim>\<open>try { m } finally { f }\<close>: \<open>f\<close> runs after \<open>m\<close> however \<open>m\<close> ended; the outcome is
  that of \<open>m\<close> unless \<open>f\<close> throws.
\<close>

definition try_finally :: "'a io \<Rightarrow> unit io \<Rightarrow> 'a io" where
  "try_finally m f =
     (\<lambda>s. case m s of (r, s1) \<Rightarrow>
        (case f s1 of (Inl e, s2) \<Rightarrow> (Inl e, s2) | (Inr u, s2) \<Rightarrow> (r, s2)))"

definition record_effect :: "effect \<Rightarrow> state \<Rightarrow> state" where
  "record_effect e s = s\<lparr>effects := effects s @ [e]\<rparr>"

text \<open>
  \<open>inside d q\<close>: the path \<open>q\<close> is the directory \<open>d\<close> or lies under it.
  \<^verbatim>\<open>mkdir(p, {recursive: true})\<close> leaves \<open>p\<close> existing;
  \<^verbatim>\<open>rm(d, {recursive: true, force: true})\<close> removes \<open>d\<close> and all under it, and a
  removal that fails is taken to remove nothing.
\<close>

definition inside :: "string \<Rightarrow> string \<Rightarrow> bool" where
  "inside d q = (q = d \<or> prefix (d @ ''/'') q)"

definition mkdir :: "world \<Rightarrow> string \<Rightarrow> unit io" where
  "mkdir w p = (\<lambda>s.
     let s1 = record_effect (Mkdir p) s in
     case mkdir_error w p of
       Some e \<Rightarrow> (Inl e, s1)
     | None \<Rightarrow> (Inr (), s1\<lparr>fs := List.insert p (fs s1)\<rparr>))"

definition rm :: "world \<Rightarrow> string \<Rightarrow> unit io" where
  "rm w d = (\<lambda>s.
     let s1 = record_effect (RmRf d) s in
     case rm_error w d of
       Some e \<Rightarrow> (Inl e, s1)
     | None \<Rightarrow> (Inr (), s1\<lparr>fs := filter (\<lambda>q. \<not> inside d q) (fs s1)\<rparr>))"

definition Bun_write :: "world \<Rightarrow> string \<Rightarrow> unit io" where
  "Bun_write w p = (\<lambda>s.
     let s1 = record_effect (WriteFile p) s in
     case write_error w p of
       Some e \<Rightarrow> (Inl e, s1)
     | None \<Rightarrow> (Inr (), s1\<lparr>fs := List.insert p (fs s1)\<rparr>))"

text \<open>\<^verbatim>\<open>Bun.spawnSync(argv)\<close> waits for the subprocess and returns its standard error.\<close>

definition spawnSync :: "world \<Rightarrow> string list \<Rightarrow> string io" where
  "spawnSync w argv = (\<lambda>s.
     let s1 = record_effect (Spawn argv) s in
     case spawn_result w argv of
       SpawnFails e \<Rightarrow> (Inl e, s1)
     | Exited err written \<Rightarrow> (Inr err, s1\<lparr>fs := fs s1 @ written\<rparr>))"

text \<open>
  \<^verbatim>\<open>Bun.file(p).exists()\<close> is asynchronous: it returns a promise of the boolean, which
  the download and static routes of the local variant read with \<^verbatim>\<open>await\<close>. A promise
  is an object, and every object is truthy.
\<close>

datatype jsval = JBool bool | JPromise jsval

fun truthy :: "jsval \<Rightarrow> bool" where
  "truthy (JBool b) = b"
| "truthy (JPromise v) = True"

fun await :: "jsval \<Rightarrow> jsval" where
  "await (JPromise v) = await v"
| "await (JBool b) = JBool b"

definition exists :: "string \<Rightarrow> jsval io" where
  "exists p = (\<lambda>s. (Inr (JPromise (JBool (p \<in> set (fs s)))), s))"

section \<open>convertFile\<close>

text \<open>
  \<^verbatim>\<open>
  function convertFile(filepath: string) {
    const { ext, name } = parse(filepath);
    const output = filepath.replace(ext, ".usdz");
    const { stderr } = Bun.spawnSync([`usd_from_gltf`, filepath, output]);
    const stderrString = stderr.toString();
    if (stderrString) logger.warn(stderrString);
    const outputFile = Bun.file(output);
    if (!outputFile.exists()) {
      throw new Error("Failed to create USDZ file");
    }
    logger.info("File converted successfully");
    return `${name}.usdz`;
  }
  \<close>
  The same function stands in all three revisions. Log lines are not part of the model.
\<close>

definition output_path :: "string \<Rightarrow> string" where
  "output_path filepath = replace filepath (ext (parse filepath)) ''.usdz''"

definition convertFile :: "world \<Rightarrow> string \<Rightarrow> string io" where
  "convertFile w filepath =
     (let output = output_path filepath in
      bind_io (spawnSync w [''usd_from_gltf'', filepath, output]) (\<lambda>stderr.
      bind_io (exists output) (\<lambda>outputFile_exists.
        if truthy outputFile_exists then return_io (name (parse filepath) @ ''.usdz'')
        else throw (Exn ''Error'' ''Failed to create USDZ file''))))"

section \<open>Module state and the storage bridge\<close>

text \<open>
  The module-level constants of the cloud revisions. \<^verbatim>\<open>a || b\<close> on environment
  entries takes \<open>a\<close> unless it is undefined or empty. The storage client is created
  only when a bucket is named, and is \<^verbatim>\<open>null\<close> when its constructor throws.
\<close>

datatype Storage = Storage_client

record server =
  FILES_FOLDER :: string
  ALLOWED_ORIGIN :: string
  GCS_BUCKET :: "string option"
  storage :: "Storage option"

fun truthy_string :: "string option \<Rightarrow> bool" where
  "truthy_string None = False"
| "truthy_string (Some v) = (v \<noteq> [])"

definition or_else :: "string option \<Rightarrow> string option \<Rightarrow> string option" where
  "or_else a b = (if truthy_string a then a else b)"

record environment =
  env_FILES_FOLDER :: "string option"
  env_ALLOWED_ORIGIN :: "string option"
  Bun_env_GCS_BUCKET :: "string option"
  process_env_GCS_BUCKET :: "string option"

definition startup :: "environment \<Rightarrow> exn + Storage \<Rightarrow> server" where
  "startup env new_Storage =
     (let bucket = or_else (Bun_env_GCS_BUCKET env) (process_env_GCS_BUCKET env) in
      \<lparr>FILES_FOLDER = the (or_else (env_FILES_FOLDER env) (Some ''/tmp/gltf2usdz/files'')),
       ALLOWED_ORIGIN = the (or_else (env_ALLOWED_ORIGIN env) (Some ''*'')),
       GCS_BUCKET = bucket,
       storage = (if truthy_string bucket then
                    (case new_Storage of Inl err \<Rightarrow> None | Inr client \<Rightarrow> Some client)
                  else None)\<rparr>)"

definition CORS_HEADERS :: "server \<Rightarrow> (string \<times> string) list" where
  "CORS_HEADERS srv =
     [(''Access-Control-Allow-Origin'', ALLOWED_ORIGIN srv),
      (''Access-Control-Allow-Methods'', ''POST, OPTIONS''),
      (''Access-Control-Allow-Headers'', ''Content-Type, Accept''),
      (''Access-Control-Max-Age'', ''600'')]"

text \<open>
  The three storage functions start with
  \<^verbatim>\<open>if (!storage) throw new Error("GCS client not initialized")\<close>.

  Both transfers touch the local disk before the SDK decides. The download opens
  \<^verbatim>\<open>createWriteStream(destPath)\<close>, which fails with ENOENT unless the directory of
  \<open>destPath\<close> (the path up to its last slash) exists; \<^verbatim>\<open>bucket.upload(localPath)\<close>
  fails with ENOENT unless \<open>localPath\<close> exists. Past these checks the outcome is the
  world's. A download that succeeds leaves the object at \<open>destPath\<close>; the partial file
  of one that fails is not tracked.
\<close>

definition not_initialized :: exn where
  "not_initialized = Exn ''Error'' ''GCS client not initialized''"

definition ENOENT :: "string \<Rightarrow> exn" where
  "ENOENT p =
     Exn ''Error'' (''ENOENT: no such file or directory, open '' @ [CHR 0x27] @ p @ [CHR 0x27])"

definition parent_dir :: "string \<Rightarrow> string" where
  "parent_dir p = rev (tl (dropWhile (\<lambda>c. c \<noteq> CHR ''/'') (rev p)))"

text \<open>
  A file can be created at \<open>p\<close> when its directory exists; the root and the working
  directory (an empty \<open>parent_dir\<close>) always do.
\<close>

definition creatable :: "string list \<Rightarrow> string \<Rightarrow> bool" where
  "creatable disk p = (parent_dir p = [] \<or> parent_dir p \<in> set disk)"

definition downloadFromGCS :: "server \<Rightarrow> world \<Rightarrow> string \<Rightarrow> string \<Rightarrow> string \<Rightarrow> unit io" where
  "downloadFromGCS srv w bucketName objectName destPath =
     (case storage srv of
        None \<Rightarrow> throw not_initialized
      | Some client \<Rightarrow> (\<lambda>s.
          let s1 = record_effect (Download bucketName objectName destPath) s in
          if creatable (fs s1) destPath then
            (case download_error w bucketName objectName of
               Some e \<Rightarrow> (Inl e, s1)
             | None \<Rightarrow> (Inr (), s1\<lparr>fs := List.insert destPath (fs s1)\<rparr>))
          else (Inl (ENOENT destPath), s1)))"

definition uploadToGCS :: "server \<Rightarrow> world \<Rightarrow> string \<Rightarrow> string \<Rightarrow> string \<Rightarrow> unit io" where
  "uploadToGCS srv w bucketName localPath destObjectName =
     (case storage srv of
        None \<Rightarrow> throw not_initialized
      | Some client \<Rightarrow> (\<lambda>s.
          let s1 = record_effect (Upload bucketName localPath destObjectName) s in
          if localPath \<in> set (fs s1) then
            (case upload_error w bucketName localPath destObjectName of
               Some e \<Rightarrow> (Inl e, s1)
             | None \<Rightarrow> (Inr (), s1))
          else (Inl (ENOENT localPath), s1)))"

text \<open>
  \<^verbatim>\<open>file.getSignedUrl({ action: "read", expires: Date.now() + 60 * 60 * 1000 })\<close>
\<close>

definition getSignedUrl :: "server \<Rightarrow> world \<Rightarrow> string \<Rightarrow> string \<Rightarrow> string io" where
  "getSignedUrl srv w bucketName objectName =
     (case storage srv of
        None \<Rightarrow> throw not_initialized
      | Some client \<Rightarrow> (\<lambda>s.
          let opts = \<lparr>action = Read_action, expires = Date_now w + 60 * 60 * 1000\<rparr> in
          (signed_url w bucketName objectName opts,
           record_effect (Sign bucketName objectName opts) s)))"

section \<open>The cloud variant with CORS and cleanup\<close>

definition req_formData :: "request \<Rightarrow> (string \<times> form_value) list io" where
  "req_formData req = (case formData req of Inl e \<Rightarrow> throw e | Inr fd \<Rightarrow> return_io fd)"

text \<open>
  \<^verbatim>\<open>!filenameField || typeof filenameField !== "string"\<close> holds for a missing field
  (\<^verbatim>\<open>null\<close>), for the empty string and for a \<^verbatim>\<open>File\<close>; \<open>string_field\<close> gives the
  string in the remaining case.
\<close>

fun string_field :: "form_value option \<Rightarrow> string option" where
  "string_field None = None"
| "string_field (Some (FormFile n)) = None"
| "string_field (Some (FormString v)) = (if v = [] then None else Some v)"

definition set_dir :: "string option \<Rightarrow> unit io" where
  "set_dir d = (\<lambda>s. (Inr (), s\<lparr>tmp_dir := d\<rparr>))"

text \<open>
  The body of the \<^verbatim>\<open>try\<close> block of \<^verbatim>\<open>/api/convert\<close>. \<open>convert_steps\<close> is what
  follows the three validations, from the normalisation of the object name on
  (\<^verbatim>\<open>parsed.dir || ""\<close> is \<^verbatim>\<open>parsed.dir\<close>, which is always a string). The value
  assigned to the variable \<^verbatim>\<open>dir\<close> is written \<open>d\<close>, \<open>dir\<close> being the field of a parsed
  path; the variable itself is \<open>tmp_dir\<close> of the state.
\<close>

definition convert_steps :: "server \<Rightarrow> world \<Rightarrow> string \<Rightarrow> string \<Rightarrow> response io" where
  "convert_steps srv w bucket filenameField =
     (let originalName = (if startsWith filenameField ''models/'' then filenameField
                          else ''models/'' @ filenameField);
          id = randomUUID w;
          d = FILES_FOLDER srv @ ''/'' @ id
      in
      bind_io (set_dir (Some d)) (\<lambda>u0.
      bind_io (mkdir w d) (\<lambda>u1.
        let parsed = parse originalName;
            objectDir = dir parsed;
            objectBase = base parsed;
            objectNameNoExt = name parsed;
            localObjectDir = d @ ''/'' @ objectDir
        in
        bind_io (mkdir w localObjectDir) (\<lambda>u2.
          let destPath = localObjectDir @ ''/'' @ objectBase in
          bind_io (downloadFromGCS srv w bucket originalName destPath) (\<lambda>u3.
            let inputPath = destPath;
                convertedName = objectNameNoExt @ ''.usdz''
            in
            bind_io (convertFile w inputPath) (\<lambda>nm.
              let outputPath = localObjectDir @ ''/'' @ convertedName;
                  destObjectName = objectDir @ ''/'' @ convertedName
              in
              bind_io (uploadToGCS srv w bucket outputPath destObjectName) (\<lambda>u4.
              bind_io (getSignedUrl srv w bucket destObjectName) (\<lambda>uploadedUrl.
                return_io
                  (Response_json
                     (JObject [(''id'', JString id), (''name'', JString nm),
                               (''uploadedUrl'', JString uploadedUrl),
                               (''objectPath'', JString destObjectName)])
                     200 (CORS_HEADERS srv))))))))))"

definition convert_try :: "server \<Rightarrow> world \<Rightarrow> request \<Rightarrow> response io" where
  "convert_try srv w req =
     (if req_method req = ''POST'' then
        bind_io (req_formData req) (\<lambda>formdata.
          case string_field (map_of formdata ''filename'') of
            None \<Rightarrow>
              return_io
                (Response_json
                   (message ''You must provide a 'filename' form field pointing to the object in GCS'')
                   400 (CORS_HEADERS srv))
          | Some filenameField \<Rightarrow>
              (case storage srv of
                 None \<Rightarrow>
                   return_io
                     (Response_json (message ''GCS is not configured on this server'')
                        500 (CORS_HEADERS srv))
               | Some client \<Rightarrow>
                   if truthy_string (GCS_BUCKET srv) then
                     convert_steps srv w (the (GCS_BUCKET srv)) filenameField
                   else
                     return_io
                       (Response_json (message ''GCS is not configured on this server'')
                          500 (CORS_HEADERS srv))))
      else
        return_io (Response_json (message ''Method not allowed'') 405 (CORS_HEADERS srv)))"

text \<open>
  The names that the handler of the CORS revision computes from the \<^verbatim>\<open>filename\<close> field,
  as functions of it: \<^verbatim>\<open>originalName\<close>, \<^verbatim>\<open>convertedName\<close> (\<^verbatim>\<open>${objectNameNoExt}.usdz\<close>)
  and \<^verbatim>\<open>destObjectName\<close> (\<^verbatim>\<open>${objectDir}/${convertedName}\<close>).
\<close>

definition originalName :: "string \<Rightarrow> string" where
  "originalName filenameField =
     (if startsWith filenameField ''models/'' then filenameField else ''models/'' @ filenameField)"

definition convertedName :: "string \<Rightarrow> string" where
  "convertedName filenameField = name (parse (originalName filenameField)) @ ''.usdz''"

definition destObjectName :: "string \<Rightarrow> string" where
  "destObjectName filenameField =
     dir (parse (originalName filenameField)) @ ''/'' @ convertedName filenameField"

text \<open>
  \<^verbatim>\<open>catch (err)\<close> answers 500 with \<^verbatim>\<open>String(err)\<close>; \<^verbatim>\<open>finally\<close> removes the directory
  when \<^verbatim>\<open>dir\<close> was assigned, and a removal that throws is caught and only logged.
\<close>

definition cleanup :: "world \<Rightarrow> unit io" where
  "cleanup w = (\<lambda>s.
     case tmp_dir s of
       None \<Rightarrow> (Inr (), s)
     | Some d \<Rightarrow> try_catch (rm w d) (\<lambda>cleanupErr. return_io ()) s)"

definition convert_cloud :: "server \<Rightarrow> world \<Rightarrow> request \<Rightarrow> response io" where
  "convert_cloud srv w req =
     bind_io (set_dir None) (\<lambda>u.
       try_finally
         (try_catch (convert_try srv w req)
            (\<lambda>err. return_io
               (Response_json (message (String_of err)) 500 (CORS_HEADERS srv))))
         (cleanup w))"

definition fetch_cloud :: "server \<Rightarrow> world \<Rightarrow> request \<Rightarrow> response io" where
  "fetch_cloud srv w req =
     (if req_method req = ''OPTIONS'' then return_io (Response NoBody 204 (CORS_HEADERS srv))
      else if pathname req = ''/healthz'' then
        return_io (Response (Text ''ok'') 200 (CORS_HEADERS srv))
      else if pathname req = ''/api/convert'' then convert_cloud srv w req
      else return_io (Response (Text ''Not Found'') 404 (CORS_HEADERS srv)))"

section \<open>The cloud variant of src/server/index.ts\<close>

text \<open>
  The earlier cloud revision: no CORS headers, no method check, no \<^verbatim>\<open>finally\<close>; the
  object is downloaded to \<^verbatim>\<open>${dir}/${originalName}\<close>, the result is uploaded from
  \<^verbatim>\<open>${dir}/${name}\<close> to \<^verbatim>\<open>models/${id}/${name}\<close>, and the success body is
  \<^verbatim>\<open>{ id, name, uploadedUrl }\<close>. Only \<^verbatim>\<open>${dir}\<close> is made before the download opens
  its file in \<^verbatim>\<open>${dir}/models/...\<close>.
\<close>

definition convert_index_steps :: "server \<Rightarrow> world \<Rightarrow> string \<Rightarrow> string \<Rightarrow> response io" where
  "convert_index_steps srv w bucket filenameField =
     (let originalName = (if startsWith filenameField ''models/'' then filenameField
                          else ''models/'' @ filenameField);
          id = randomUUID w;
          d = FILES_FOLDER srv @ ''/'' @ id
      in
      bind_io (mkdir w d) (\<lambda>u1.
        let destPath = d @ ''/'' @ originalName in
        bind_io (downloadFromGCS srv w bucket originalName destPath) (\<lambda>u2.
          let inputPath = destPath in
          bind_io (convertFile w inputPath) (\<lambda>nm.
            let outputPath = d @ ''/'' @ nm;
                destObjectName = ''models/'' @ id @ ''/'' @ nm
            in
            bind_io (uploadToGCS srv w bucket outputPath destObjectName) (\<lambda>u3.
            bind_io (getSignedUrl srv w bucket destObjectName) (\<lambda>uploadedUrl.
              return_io
                (Response_json
                   (JObject [(''id'', JString id), (''name'', JString nm),
                             (''uploadedUrl'', JString uploadedUrl)])
                   200 [])))))))"

definition convert_index_try :: "server \<Rightarrow> world \<Rightarrow> request \<Rightarrow> response io" where
  "convert_index_try srv w req =
     bind_io (req_formData req) (\<lambda>formdata.
       case string_field (map_of formdata ''filename'') of
         None \<Rightarrow>
           return_io
             (Response_json
                (message ''You must provide a 'filename' form field pointing to the object in GCS'')
                400 [])
       | Some filenameField \<Rightarrow>
           (case storage srv of
              None \<Rightarrow>
                return_io
                  (Response_json (message ''GCS is not configured on this server'') 500 [])
            | Some client \<Rightarrow>
                if truthy_string (GCS_BUCKET srv) then
                  convert_index_steps srv w (the (GCS_BUCKET srv)) filenameField
                else
                  return_io
                    (Response_json (message ''GCS is not configured on this server'') 500 [])))"

definition fetch_index :: "server \<Rightarrow> world \<Rightarrow> request \<Rightarrow> response io" where
  "fetch_index srv w req =
     (if pathname req = ''/healthz'' then return_io (Response (Text ''ok'') 200 [])
      else if pathname req = ''/api/convert'' then
        try_catch (convert_index_try srv w req)
          (\<lambda>err. return_io (Response_json (message (String_of err)) 500 []))
      else return_io (Response (Text ''Not Found'') 404 []))"

section \<open>The local-disk variant\<close>

text \<open>
  The constants \<^verbatim>\<open>FILES_FOLDER\<close> and \<^verbatim>\<open>FRONTEND_FOLDER\<close> of the local variant; the
  first is written \<open>LOCAL_FILES_FOLDER\<close>, apart from the field of the cloud servers.
\<close>

definition LOCAL_FILES_FOLDER :: string where
  "LOCAL_FILES_FOLDER = ''/usr/app/gltf2usdz/files''"

definition FRONTEND_FOLDER :: string where
  "FRONTEND_FOLDER = ''../client/dist''"

definition must_upload :: exn where
  "must_upload = Exn ''Error'' ''You must upload a glb/gltf file.''"

text \<open>
  \<^verbatim>\<open>
  const file = formdata.get("file") as unknown as File;
  logger.info(`Converting file ${file.name}...`);
  if (!file || !(file instanceof File) ||
      !(file.name.endsWith(".gltf") || file.name.endsWith(".glb"))) {
    throw new Error("You must upload a glb/gltf file.");
  }
  \<close>
  Reading \<^verbatim>\<open>file.name\<close> of a missing field (\<^verbatim>\<open>null\<close>) throws a TypeError before the
  check; a string field is no \<^verbatim>\<open>File\<close>; a \<^verbatim>\<open>File\<close> passes when its name ends in one
  of the two extensions.
\<close>

definition convert_local_try :: "world \<Rightarrow> request \<Rightarrow> response io" where
  "convert_local_try w req =
     bind_io (req_formData req) (\<lambda>formdata.
       case map_of formdata ''file'' of
         None \<Rightarrow> throw (Exn ''TypeError'' ''null is not an object (evaluating 'file.name')'')
       | Some (FormString v) \<Rightarrow> throw must_upload
       | Some (FormFile file_name) \<Rightarrow>
           if endsWith file_name ''.gltf'' \<or> endsWith file_name ''.glb'' then
             (let id = randomUUID w;
                  filename = LOCAL_FILES_FOLDER @ ''/'' @ id @ ''/'' @ file_name
              in
              bind_io (Bun_write w filename) (\<lambda>u.
              bind_io (convertFile w filename) (\<lambda>nm.
                return_io
                  (Response_json (JObject [(''id'', JString id), (''name'', JString nm)])
                     200 []))))
           else throw must_upload)"

text \<open>
  \<^verbatim>\<open>/api/download\<close> and the static routes read \<^verbatim>\<open>await file.exists()\<close>.
\<close>

definition download_local_try :: "request \<Rightarrow> response io" where
  "download_local_try req =
     (if map_of (searchParams req) ''id'' = None then
        return_io (Response (Text ''Bad request'') 400 [])
      else if map_of (searchParams req) ''name'' = None then
        return_io (Response (Text ''Bad request'') 400 [])
      else
        (let file = LOCAL_FILES_FOLDER @ ''/'' @ the (map_of (searchParams req) ''id'') @ ''/''
                      @ the (map_of (searchParams req) ''name'')
         in
         bind_io (exists file) (\<lambda>file_exists.
           if truthy (await file_exists) then return_io (Response (FileBody file) 200 [])
           else throw (Exn ''Error'' []))))"

definition static_local_try :: "request \<Rightarrow> response io" where
  "static_local_try req =
     (let file = FRONTEND_FOLDER @ pathname req in
      bind_io (exists file) (\<lambda>file_exists.
        if truthy (await file_exists) then return_io (Response (FileBody file) 200 [])
        else throw (Exn ''Error'' [])))"

definition fetch_local :: "world \<Rightarrow> request \<Rightarrow> response io" where
  "fetch_local w req =
     (if pathname req = ''/api/convert'' then
        try_catch (convert_local_try w req)
          (\<lambda>error. return_io (Response_json (message (String_of error)) 500 []))
      else if pathname req = ''/api/download'' then
        try_catch (download_local_try req)
          (\<lambda>error. return_io (Response_json (message ''Failed to download the file.'') 500 []))
      else if pathname req = ''/'' then
        return_io (Response (FileBody (FRONTEND_FOLDER @ ''/index.html'')) 200 [])
      else
        try_catch (static_local_try req)
          (\<lambda>error. return_io (Response (Text ''Not Found'') 404 [])))"

section \<open>Example worlds and requests\<close>

text \<open>
  Concrete inputs on which the handlers are evaluated below: a world in which every
  external call succeeds and the converter writes the file named by its last
  argument; variants of it in which the converter writes nothing, the removal of the
  directory fails, or the download fails; a server with and without a bucket; an
  empty disk; and requests to \<^verbatim>\<open>/api/convert\<close>.
\<close>

definition world_ok :: world where
  "world_ok =
     \<lparr>randomUUID = ''9f8b'',
      Date_now = 1762000000000,
      mkdir_error = (\<lambda>p. None),
      rm_error = (\<lambda>p. None),
      write_error = (\<lambda>p. None),
      spawn_result = (\<lambda>argv. Exited [] (drop 2 argv)),
      download_error = (\<lambda>b n. None),
      upload_error = (\<lambda>b p n. None),
      signed_url = (\<lambda>b n opts. Inr (''https://'' @ b @ ''/'' @ n))\<rparr>"

definition world_no_output :: world where
  "world_no_output = world_ok\<lparr>spawn_result := (\<lambda>argv. Exited ''cannot read input'' [])\<rparr>"

definition world_rm_fails :: world where
  "world_rm_fails = world_ok\<lparr>rm_error := (\<lambda>p. Some (Exn ''Error'' ''EACCES: permission denied''))\<rparr>"

definition world_download_fails :: world where
  "world_download_fails =
     world_ok\<lparr>download_error := (\<lambda>b n. Some (Exn ''Error'' ''No such object''))\<rparr>"

definition server_configured :: server where
  "server_configured =
     startup \<lparr>env_FILES_FOLDER = Some ''/data'', env_ALLOWED_ORIGIN = Some ''https://ar.example'',
              Bun_env_GCS_BUCKET = Some ''bkt'', process_env_GCS_BUCKET = None\<rparr>
       (Inr Storage_client)"

definition server_unconfigured :: server where
  "server_unconfigured =
     startup \<lparr>env_FILES_FOLDER = None, env_ALLOWED_ORIGIN = None,
              Bun_env_GCS_BUCKET = None, process_env_GCS_BUCKET = None\<rparr>
       (Inr Storage_client)"

definition empty_disk :: state where
  "empty_disk = \<lparr>fs = [], effects = [], tmp_dir = None\<rparr>"

definition post_filename :: "form_value \<Rightarrow> request" where
  "post_filename v =
     \<lparr>req_method = ''POST'', pathname = ''/api/convert'', searchParams = [],
      formData = Inr [(''filename'', v)]\<rparr>"

definition post_file :: "string \<Rightarrow> request" where
  "post_file n =
     \<lparr>req_method = ''POST'', pathname = ''/api/convert'', searchParams = [],
      formData = Inr [(''file'', FormFile n)]\<rparr>"

section \<open>Sequencing lemmas\<close>

lemma bind_io_Inr:
  "bind_io m f s = (Inr r, s') \<longleftrightarrow> (\<exists>a s1. m s = (Inr a, s1) \<and> f a s1 = (Inr r, s'))"
  by (auto simp: bind_io_def split: prod.splits sum.splits)

lemma bind_io_step: "m s = (Inr a, s1) \<Longrightarrow> bind_io m f s = f a s1"
  by (simp add: bind_io_def)

lemma bind_io_fail: "m s = (Inl e, s1) \<Longrightarrow> bind_io m f s = (Inl e, s1)"
  by (simp add: bind_io_def)

section \<open>Responses of the cloud variant with CORS and cleanup\<close>

lemma convert_steps_response:
  assumes "convert_steps srv w bucket f s = (Inr r, s')"
  shows "status r = 200 \<and> headers r = CORS_HEADERS srv \<and>
         (\<exists>nm url path. body r =
            Json (JObject [(''id'', JString (randomUUID w)), (''name'', JString nm),
                           (''uploadedUrl'', JString url), (''objectPath'', JString path)]))"
  using assms
  by (auto simp: convert_steps_def Let_def bind_io_Inr return_io_def Response_json_def
      Response_def)

lemma convert_try_headers:
  assumes "convert_try srv w req s = (Inr r, s')"
  shows "headers r = CORS_HEADERS srv"
  using assms convert_steps_response [of srv w _ _ _ r s']
  by (auto simp: convert_try_def bind_io_Inr return_io_def Response_json_def Response_def
      split: if_splits option.splits)

lemma cleanup_returns: "\<exists>s'. cleanup w s = (Inr (), s')"
  by (auto simp: cleanup_def try_catch_def rm_def Let_def return_io_def split: option.splits)

lemma convert_cloud_headers:
  "\<exists>r s'. convert_cloud srv w req s = (Inr r, s') \<and> headers r = CORS_HEADERS srv"
proof -
  let ?s0 = "s\<lparr>tmp_dir := None\<rparr>"
  obtain x s1 where t: "convert_try srv w req ?s0 = (x, s1)"
    by (cases "convert_try srv w req ?s0")
  obtain s2 where c: "cleanup w s1 = (Inr (), s2)"
    using cleanup_returns by blast
  show ?thesis
  proof (cases x)
    case (Inl e)
    then show ?thesis using t c
      by (simp add: convert_cloud_def bind_io_def set_dir_def try_finally_def try_catch_def
          return_io_def Response_json_def Response_def)
  next
    case (Inr r)
    then show ?thesis using t c convert_try_headers [of srv w req ?s0 r s1]
      by (simp add: convert_cloud_def bind_io_def set_dir_def try_finally_def try_catch_def)
  qed
qed

section \<open>The temporary directory\<close>

lemma set_dir_bind: "bind_io (set_dir d) f s = f () (s\<lparr>tmp_dir := d\<rparr>)"
  by (simp add: bind_io_def set_dir_def)

lemma tmp_dir_bind:
  assumes "\<And>s. tmp_dir (snd (m s)) = tmp_dir s"
    and "\<And>a s. tmp_dir (snd (f a s)) = tmp_dir s"
  shows "tmp_dir (snd (bind_io m f s)) = tmp_dir s"
proof (cases "m s")
  case (Pair x s1)
  then have "tmp_dir s1 = tmp_dir s" using assms(1) [of s] by simp
  then show ?thesis using Pair assms(2)
    by (cases x) (simp_all add: bind_io_def)
qed

lemma tmp_dir_mkdir: "tmp_dir (snd (mkdir w p s)) = tmp_dir s"
  by (simp add: mkdir_def Let_def record_effect_def split: option.splits)

lemma tmp_dir_spawnSync: "tmp_dir (snd (spawnSync w argv s)) = tmp_dir s"
  by (simp add: spawnSync_def Let_def record_effect_def split: spawn_outcome.splits)

lemma tmp_dir_convertFile: "tmp_dir (snd (convertFile w p s)) = tmp_dir s"
  unfolding convertFile_def Let_def
  by (intro tmp_dir_bind tmp_dir_spawnSync) (simp_all add: exists_def return_io_def throw_def)

lemma tmp_dir_download: "tmp_dir (snd (downloadFromGCS srv w b n p s)) = tmp_dir s"
  by (simp add: downloadFromGCS_def Let_def record_effect_def throw_def split: option.splits)

lemma tmp_dir_upload: "tmp_dir (snd (uploadToGCS srv w b p n s)) = tmp_dir s"
  by (simp add: uploadToGCS_def Let_def record_effect_def throw_def split: option.splits)

lemma tmp_dir_sign: "tmp_dir (snd (getSignedUrl srv w b n s)) = tmp_dir s"
  by (simp add: getSignedUrl_def Let_def record_effect_def throw_def split: option.splits)

lemma tmp_dir_return: "tmp_dir (snd (return_io a s)) = tmp_dir s"
  by (simp add: return_io_def)

lemma convert_steps_tmp_dir:
  "tmp_dir (snd (convert_steps srv w bucket f s)) = Some (FILES_FOLDER srv @ ''/'' @ randomUUID w)"
proof -
  have "tmp_dir (snd (convert_steps srv w bucket f s)) =
        tmp_dir (s\<lparr>tmp_dir := Some (FILES_FOLDER srv @ ''/'' @ randomUUID w)\<rparr>)"
    unfolding convert_steps_def Let_def set_dir_bind
    by (intro tmp_dir_bind tmp_dir_mkdir tmp_dir_download tmp_dir_convertFile tmp_dir_upload
        tmp_dir_sign tmp_dir_return)
  then show ?thesis by simp
qed

section \<open>Parsing a path whose last component is stem.ext\<close>

lemma scan_run:
  assumes "start \<le> i"
    and "\<forall>k<n. path ! (i + k) \<noteq> CHR ''/'' \<and> path ! (i + k) \<noteq> CHR ''.''"
    and "endIdx s \<noteq> - 1"
  shows "parse_scan path start (i + n) s =
         parse_scan path start i (if n = 0 \<or> startDot s = - 1 then s else s\<lparr>preDotState := - 1\<rparr>)"
  using assms
proof (induction n arbitrary: s)
  case 0
  then show ?case by simp
next
  case (Suc n)
  let ?s2 = "if startDot s = - 1 then s else s\<lparr>preDotState := - 1\<rparr>"
  have c: "path ! (i + n) \<noteq> CHR ''/''" "path ! (i + n) \<noteq> CHR ''.''"
    using Suc.prems(2) by auto
  have "parse_scan path start (i + Suc n) s = parse_scan path start (i + n) ?s2"
    using c Suc.prems(1,3) by (simp add: Let_def)
  also have "\<dots> = parse_scan path start i
       (if n = 0 \<or> startDot ?s2 = - 1 then ?s2 else ?s2\<lparr>preDotState := - 1\<rparr>)"
    using Suc.prems by (intro Suc.IH) auto
  also have "\<dots> = parse_scan path start i
       (if Suc n = 0 \<or> startDot s = - 1 then s else s\<lparr>preDotState := - 1\<rparr>)"
    by simp
  finally show ?case .
qed

lemma scan_first:
  assumes "start \<le> i" and "path ! i \<noteq> CHR ''/''" and "path ! i \<noteq> CHR ''.''"
    and "endIdx s = - 1" and "startDot s = - 1"
  shows "parse_scan path start (Suc i) s =
         parse_scan path start i (s\<lparr>matchedSlash := False, endIdx := int i + 1\<rparr>)"
  using assms by (simp add: Let_def)

lemma scan_dot:
  assumes "start \<le> i" and "path ! i = CHR ''.''" and "endIdx s \<noteq> - 1" and "startDot s = - 1"
  shows "parse_scan path start (Suc i) s = parse_scan path start i (s\<lparr>startDot := int i\<rparr>)"
  using assms by (simp add: Let_def)

lemma scan_stop:
  assumes "start \<le> i" and "path ! i = CHR ''/''" and "\<not> matchedSlash s"
  shows "parse_scan path start (Suc i) s = s\<lparr>startPart := i + 1\<rparr>"
  using assms by simp


lemma scan_component:
  assumes stem: "stem \<noteq> []" "\<forall>ch \<in> set stem. ch \<noteq> CHR ''/'' \<and> ch \<noteq> CHR ''.''"
    and e: "e \<noteq> []" "\<forall>ch \<in> set e. ch \<noteq> CHR ''/'' \<and> ch \<noteq> CHR ''.''"
    and pre: "1 \<le> length pre"
    and path: "path = pre @ CHR ''/'' # stem @ CHR ''.'' # e"
  shows "parse_scan path 1 (length path)
           \<lparr>startDot = - 1, startPart = 0, endIdx = - 1, matchedSlash = True, preDotState = 0\<rparr>
         = \<lparr>startDot = int (length pre + 1 + length stem), startPart = length pre + 1,
            endIdx = int (length path), matchedSlash = False, preDotState = - 1\<rparr>"
proof -
  let ?a = "length pre"
  let ?b = "length pre + 1"
  let ?c = "length pre + 1 + length stem"
  let ?d = "length pre + 1 + length stem + 1"
  let ?s0 = "\<lparr>startDot = - 1, startPart = 0, endIdx = - 1, matchedSlash = True, preDotState = 0\<rparr>"
  let ?s1 = "?s0\<lparr>matchedSlash := False, endIdx := int (length path)\<rparr>"
  let ?s2 = "?s1\<lparr>startDot := int ?c\<rparr>"
  let ?s3 = "?s2\<lparr>preDotState := - 1\<rparr>"
  have len: "length path = ?d + length e" using path by simp
  have at_a: "path ! ?a = CHR ''/''" using path by simp
  have at_b: "path ! (?b + k) = stem ! k" if "k < length stem" for k
  proof -
    have "path ! (?b + k) = (CHR ''/'' # stem @ CHR ''.'' # e) ! (Suc k)"
      unfolding path by (simp add: nth_append)
    then show ?thesis using that by (simp add: nth_append)
  qed
  have at_c: "path ! ?c = CHR ''.''"
  proof -
    have "path ! ?c = (CHR ''/'' # stem @ CHR ''.'' # e) ! (Suc (length stem))"
      unfolding path by (simp add: nth_append)
    then show ?thesis by (simp add: nth_append)
  qed
  have at_d: "path ! (?d + k) = e ! k" if "k < length e" for k
  proof -
    have "path ! (?d + k) = (CHR ''/'' # stem @ CHR ''.'' # e) ! (Suc (length stem + Suc k))"
      unfolding path by (simp add: nth_append)
    then show ?thesis by (simp add: nth_append)
  qed
  have plain_e: "\<forall>k<length e. path ! (?d + k) \<noteq> CHR ''/'' \<and> path ! (?d + k) \<noteq> CHR ''.''"
    using at_d e(2) by (simp add: nth_mem)
  have plain_stem: "\<forall>k<length stem. path ! (?b + k) \<noteq> CHR ''/'' \<and> path ! (?b + k) \<noteq> CHR ''.''"
    using at_b stem(2) by (simp add: nth_mem)
  obtain m where m: "length e = Suc m" using e(1) by (cases e) auto
  have last_plain: "path ! (?d + m) \<noteq> CHR ''/''" "path ! (?d + m) \<noteq> CHR ''.''"
    using plain_e m by auto
  have "parse_scan path 1 (length path) ?s0 = parse_scan path 1 (Suc (?d + m)) ?s0"
    using len m by simp
  also have "\<dots> = parse_scan path 1 (?d + m) ?s1"
    using scan_first [of 1 "?d + m" path ?s0] last_plain len m by simp
  also have "\<dots> = parse_scan path 1 ?d ?s1"
    using scan_run [of 1 ?d m path ?s1] plain_e m by simp
  also have "\<dots> = parse_scan path 1 (Suc ?c) ?s1" by simp
  also have "\<dots> = parse_scan path 1 ?c ?s2"
    using scan_dot [of 1 ?c path ?s1] at_c by simp
  also have "\<dots> = parse_scan path 1 ?b ?s3"
    using scan_run [of 1 ?b "length stem" path ?s2] plain_stem stem(1) by simp
  also have "\<dots> = parse_scan path 1 (Suc ?a) ?s3" by simp
  also have "\<dots> = ?s3\<lparr>startPart := ?a + 1\<rparr>"
    using scan_stop [of 1 ?a path ?s3] at_a pre by simp
  finally show ?thesis by simp
qed

lemma parse_component:
  assumes stem: "stem \<noteq> []" "\<forall>ch \<in> set stem. ch \<noteq> CHR ''/'' \<and> ch \<noteq> CHR ''.''"
    and e: "e \<noteq> []" "\<forall>ch \<in> set e. ch \<noteq> CHR ''/'' \<and> ch \<noteq> CHR ''.''"
  shows "parse ((CHR ''/'' # rest) @ CHR ''/'' # stem @ CHR ''.'' # e) =
         \<lparr>root = ''/'', dir = CHR ''/'' # rest, base = stem @ CHR ''.'' # e,
          ext = CHR ''.'' # e, name = stem\<rparr>"
proof -
  let ?pre = "CHR ''/'' # rest"
  let ?path = "?pre @ CHR ''/'' # stem @ CHR ''.'' # e"
  have sc: "parse_scan ?path 1 (length ?path)
           \<lparr>startDot = - 1, startPart = 0, endIdx = - 1, matchedSlash = True, preDotState = 0\<rparr>
         = \<lparr>startDot = int (length ?pre + 1 + length stem), startPart = length ?pre + 1,
            endIdx = int (length ?path), matchedSlash = False, preDotState = - 1\<rparr>"
    by (rule scan_component [OF stem e]) simp_all
  have ne: "?path \<noteq> []" and hd: "hd ?path = CHR ''/''" by simp_all
  show ?thesis
    unfolding parse_def
    apply (simp only: ne hd if_False if_True Let_def refl sc)
    apply (simp add: slice_def nat_add_distrib)
    done
qed

text \<open>The example of the module's documentation, and a name that starts with its only dot.\<close>

lemma parse_examples:
  "parse ''/home/user/dir/file.txt'' =
     \<lparr>root = ''/'', dir = ''/home/user/dir'', base = ''file.txt'', ext = ''.txt'', name = ''file''\<rparr>"
  "parse ''models/.glb'' =
     \<lparr>root = [], dir = ''models'', base = ''.glb'', ext = [], name = ''.glb''\<rparr>"
  by code_simp+

section \<open>What convertFile returns\<close>

lemma convertFile_exited:
  assumes "spawn_result w [''usd_from_gltf'', p, output_path p] = Exited err written"
  shows "convertFile w p s =
         (Inr (name (parse p) @ ''.usdz''),
          (record_effect (Spawn [''usd_from_gltf'', p, output_path p]) s)\<lparr>fs := fs s @ written\<rparr>)"
  using assms
  by (simp add: convertFile_def Let_def bind_io_def spawnSync_def exists_def return_io_def
      record_effect_def)

lemma convertFile_spawn_fails:
  assumes "spawn_result w [''usd_from_gltf'', p, output_path p] = SpawnFails e"
  shows "convertFile w p s =
         (Inl e, record_effect (Spawn [''usd_from_gltf'', p, output_path p]) s)"
  using assms
  by (simp add: convertFile_def Let_def bind_io_def spawnSync_def)

text \<open>The only error \<open>convertFile\<close> ever throws is that of a subprocess that cannot be spawned.\<close>

lemma convertFile_throws:
  assumes "convertFile w p s = (Inl e, s')"
  shows "spawn_result w [''usd_from_gltf'', p, output_path p] = SpawnFails e"
proof (cases "spawn_result w [''usd_from_gltf'', p, output_path p]")
  case (SpawnFails e')
  then show ?thesis using assms convertFile_spawn_fails [of w p e' s] by simp
next
  case (Exited err written)
  then show ?thesis using assms convertFile_exited [of w p err written s] by simp
qed

lemma convertFile_name:
  assumes "convertFile w p s = (Inr nm, s')"
  shows "nm = name (parse p) @ ''.usdz''"
proof (cases "spawn_result w [''usd_from_gltf'', p, output_path p]")
  case (SpawnFails e)
  then show ?thesis using assms convertFile_spawn_fails [of w p e s] by simp
next
  case (Exited err written)
  then show ?thesis using assms convertFile_exited [of w p err written s] by simp
qed

lemma convert_local_try_response:
  assumes "convert_local_try w req s = (Inr r, s')"
  shows "status r = 200 \<and>
         (\<exists>nm. body r = Json (JObject [(''id'', JString (randomUUID w)), (''name'', JString nm)]) \<and>
               endsWith nm ''.usdz'')"
proof -
  from assms obtain fd where fd: "formData req = Inr fd"
    by (cases "formData req")
      (auto simp: convert_local_try_def req_formData_def bind_io_def throw_def)
  from assms fd obtain n where n: "map_of fd ''file'' = Some (FormFile n)"
    and ok: "endsWith n ''.gltf'' \<or> endsWith n ''.glb''"
    by (auto simp: convert_local_try_def req_formData_def bind_io_def return_io_def throw_def
        split: option.splits form_value.splits if_splits)
  let ?fn = "LOCAL_FILES_FOLDER @ ''/'' @ randomUUID w @ ''/'' @ n"
  from assms fd n ok obtain nm s1 where cf: "convertFile w ?fn s1 = (Inr nm, s')"
    and r: "r = Response_json (JObject [(''id'', JString (randomUUID w)), (''name'', JString nm)]) 200 []"
    by (auto simp: convert_local_try_def req_formData_def bind_io_Inr return_io_def Let_def)
  have "nm = name (parse ?fn) @ ''.usdz''"
    using cf by (rule convertFile_name)
  then show ?thesis
    using r by (simp add: Response_json_def Response_def endsWith_def suffix_def)
qed

lemma replace_no_earlier:
  assumes "c \<notin> set xs"
  shows "replace (xs @ c # e) (c # e) rep = xs @ rep"
  using assms
proof (induction xs)
  case Nil
  then show ?case by simp
next
  case (Cons x xs)
  then show ?case by simp
qed

lemma output_path_plain:
  assumes "stem \<noteq> []" "\<forall>ch \<in> set stem. ch \<noteq> CHR ''/'' \<and> ch \<noteq> CHR ''.''"
    and "e \<noteq> []" "\<forall>ch \<in> set e. ch \<noteq> CHR ''/'' \<and> ch \<noteq> CHR ''.''"
    and "CHR ''.'' \<notin> set rest"
  shows "output_path ((CHR ''/'' # rest) @ CHR ''/'' # stem @ CHR ''.'' # e) =
         (CHR ''/'' # rest) @ CHR ''/'' # stem @ ''.usdz''"
proof -
  have x: "ext (parse ((CHR ''/'' # rest) @ CHR ''/'' # stem @ CHR ''.'' # e)) = CHR ''.'' # e"
    using parse_component [OF assms(1-4), of rest] by simp
  have nodot: "CHR ''.'' \<notin> set ((CHR ''/'' # rest) @ CHR ''/'' # stem)"
    using assms(2,5) by auto
  have "replace (((CHR ''/'' # rest) @ CHR ''/'' # stem) @ CHR ''.'' # e) (CHR ''.'' # e) ''.usdz''
        = ((CHR ''/'' # rest) @ CHR ''/'' # stem) @ ''.usdz''"
    using nodot by (rule replace_no_earlier)
  then show ?thesis
    unfolding output_path_def x by simp
qed

section \<open>Where a 200 answer of /api/convert comes from\<close>

lemma getSignedUrl_Inr:
  assumes "getSignedUrl srv w b n s = (Inr url, s')"
  shows "signed_url w b n \<lparr>action = Read_action, expires = Date_now w + 3600000\<rparr> = Inr url"
  using assms
  by (cases "storage srv") (auto simp: getSignedUrl_def throw_def Let_def)

lemma convert_cloud_success:
  assumes "convert_cloud srv w req s = (Inr r, s')" and "status r = 200"
  shows "\<exists>s1. convert_try srv w req (s\<lparr>tmp_dir := None\<rparr>) = (Inr r, s1)"
proof -
  let ?s0 = "s\<lparr>tmp_dir := None\<rparr>"
  obtain x s1 where t: "convert_try srv w req ?s0 = (x, s1)"
    by (cases "convert_try srv w req ?s0")
  obtain s2 where c: "cleanup w s1 = (Inr (), s2)"
    using cleanup_returns by blast
  show ?thesis
  proof (cases x)
    case (Inl e)
    then have "r = Response_json (message (String_of e)) 500 (CORS_HEADERS srv)"
      using assms(1) t c
      by (simp add: convert_cloud_def set_dir_bind try_finally_def try_catch_def return_io_def)
    then show ?thesis using assms(2) by (simp add: Response_json_def Response_def)
  next
    case (Inr r')
    then have "r = r'"
      using assms(1) t c
      by (simp add: convert_cloud_def set_dir_bind try_finally_def try_catch_def)
    then show ?thesis using t Inr by simp
  qed
qed

section \<open>Files are only added before the cleanup\<close>

lemma fs_bind:
  assumes "\<And>s. set (fs s) \<subseteq> set (fs (snd (m s)))"
    and "\<And>a s. set (fs s) \<subseteq> set (fs (snd (f a s)))"
  shows "set (fs s) \<subseteq> set (fs (snd (bind_io m f s)))"
proof (cases "m s")
  case (Pair x s1)
  then have "set (fs s) \<subseteq> set (fs s1)" using assms(1) [of s] by simp
  then show ?thesis using Pair assms(2)
    by (cases x) (auto simp: bind_io_def)
qed

lemma fs_mkdir: "set (fs s) \<subseteq> set (fs (snd (mkdir w p s)))"
  by (auto simp: mkdir_def Let_def record_effect_def split: option.splits)

lemma fs_spawnSync: "set (fs s) \<subseteq> set (fs (snd (spawnSync w argv s)))"
  by (auto simp: spawnSync_def Let_def record_effect_def split: spawn_outcome.splits)

lemma fs_convertFile: "set (fs s) \<subseteq> set (fs (snd (convertFile w p s)))"
  unfolding convertFile_def Let_def
  by (intro fs_bind fs_spawnSync) (simp_all add: exists_def return_io_def throw_def)

lemma fs_download: "set (fs s) \<subseteq> set (fs (snd (downloadFromGCS srv w b n p s)))"
  by (auto simp: downloadFromGCS_def Let_def record_effect_def throw_def split: option.splits)

lemma fs_upload: "set (fs s) \<subseteq> set (fs (snd (uploadToGCS srv w b p n s)))"
  by (auto simp: uploadToGCS_def Let_def record_effect_def throw_def split: option.splits)

lemma fs_sign: "set (fs s) \<subseteq> set (fs (snd (getSignedUrl srv w b n s)))"
  by (auto simp: getSignedUrl_def Let_def record_effect_def throw_def split: option.splits)

lemma fs_return: "set (fs s) \<subseteq> set (fs (snd (return_io a s)))"
  by (simp add: return_io_def)

lemma mkdir_bind_keeps:
  assumes "mkdir_error w d = None"
    and "\<And>a s. set (fs s) \<subseteq> set (fs (snd (g a s)))"
  shows "d \<in> set (fs (snd (bind_io (mkdir w d) g s)))"
proof -
  let ?s1 = "(record_effect (Mkdir d) s)\<lparr>fs := List.insert d (fs s)\<rparr>"
  have m: "mkdir w d s = (Inr (), ?s1)"
    using assms(1) by (simp add: mkdir_def Let_def record_effect_def)
  have "d \<in> set (fs ?s1)" by simp
  then show ?thesis
    using assms(2) [of ?s1 "()"] by (auto simp: bind_io_def m)
qed

lemma convert_steps_keeps_dir:
  assumes "mkdir_error w (FILES_FOLDER srv @ ''/'' @ randomUUID w) = None"
  shows "FILES_FOLDER srv @ ''/'' @ randomUUID w \<in> set (fs (snd (convert_steps srv w bucket f s)))"
  unfolding convert_steps_def Let_def set_dir_bind
  by (intro mkdir_bind_keeps assms fs_bind fs_mkdir fs_download fs_convertFile fs_upload fs_sign
      fs_return)

lemma convert_index_steps_keeps_dir:
  assumes "mkdir_error w (FILES_FOLDER srv @ ''/'' @ randomUUID w) = None"
  shows "FILES_FOLDER srv @ ''/'' @ randomUUID w
           \<in> set (fs (snd (convert_index_steps srv w bucket f s)))"
  unfolding convert_index_steps_def Let_def
  by (intro mkdir_bind_keeps assms fs_bind fs_mkdir fs_download fs_convertFile fs_upload fs_sign
      fs_return)

lemma primitives_ignore_rm:
  "mkdir (w\<lparr>rm_error := g\<rparr>) p = mkdir w p"
  "downloadFromGCS srv (w\<lparr>rm_error := g\<rparr>) b n p = downloadFromGCS srv w b n p"
  "convertFile (w\<lparr>rm_error := g\<rparr>) p = convertFile w p"
  "uploadToGCS srv (w\<lparr>rm_error := g\<rparr>) b p n = uploadToGCS srv w b p n"
  "getSignedUrl srv (w\<lparr>rm_error := g\<rparr>) b n = getSignedUrl srv w b n"
  by (auto simp: fun_eq_iff mkdir_def downloadFromGCS_def convertFile_def spawnSync_def
      uploadToGCS_def getSignedUrl_def Let_def split: option.splits)

lemma convert_steps_ignores_rm:
  "convert_steps srv (w\<lparr>rm_error := g\<rparr>) bucket f = convert_steps srv w bucket f"
  by (simp add: convert_steps_def primitives_ignore_rm)

lemma cleanup_after_steps:
  assumes "tmp_dir s = Some d"
  shows "cleanup w s =
         (Inr (), case rm_error w d of
                    None \<Rightarrow> (record_effect (RmRf d) s)\<lparr>fs := filter (\<lambda>q. \<not> inside d q) (fs s)\<rparr>
                  | Some e \<Rightarrow> record_effect (RmRf d) s)"
  using assms
  by (simp add: cleanup_def try_catch_def rm_def Let_def return_io_def record_effect_def
      split: option.splits)

lemma fetch_cloud_validated:
  assumes "req_method req = ''POST''" and "pathname req = ''/api/convert''"
    and "formData req = Inr fd" and "string_field (map_of fd ''filename'') = Some f"
    and "storage srv = Some client" and "truthy_string (GCS_BUCKET srv)"
    and "convert_steps srv w (the (GCS_BUCKET srv)) f (s\<lparr>tmp_dir := None\<rparr>) = (x, s1)"
  shows "fetch_cloud srv w req s =
         (Inr (case x of
                 Inl err \<Rightarrow> Response_json (message (String_of err)) 500 (CORS_HEADERS srv)
               | Inr r \<Rightarrow> r),
          case rm_error w (FILES_FOLDER srv @ ''/'' @ randomUUID w) of
            None \<Rightarrow> (record_effect (RmRf (FILES_FOLDER srv @ ''/'' @ randomUUID w)) s1)
                      \<lparr>fs := filter (\<lambda>q. \<not> inside (FILES_FOLDER srv @ ''/'' @ randomUUID w) q) (fs s1)\<rparr>
          | Some e \<Rightarrow> record_effect (RmRf (FILES_FOLDER srv @ ''/'' @ randomUUID w)) s1)"
proof -
  let ?d = "FILES_FOLDER srv @ ''/'' @ randomUUID w"
  let ?s0 = "s\<lparr>tmp_dir := None\<rparr>"
  have tr: "convert_try srv w req ?s0 = (x, s1)"
    using assms by (simp add: convert_try_def req_formData_def bind_io_def return_io_def)
  have d1: "tmp_dir s1 = Some ?d"
    using convert_steps_tmp_dir [of srv w "the (GCS_BUCKET srv)" f ?s0] assms(7) by simp
  have m: "req_method req \<noteq> ''OPTIONS''" using assms(1) by simp
  show ?thesis
    using assms(2) m tr cleanup_after_steps [OF d1, of w]
    by (cases x)
      (simp_all add: fetch_cloud_def convert_cloud_def set_dir_bind try_finally_def try_catch_def
        return_io_def)
qed

lemma fetch_index_validated:
  assumes "pathname req = ''/api/convert''"
    and "formData req = Inr fd" and "string_field (map_of fd ''filename'') = Some f"
    and "storage srv = Some client" and "truthy_string (GCS_BUCKET srv)"
    and "convert_index_steps srv w (the (GCS_BUCKET srv)) f s = (x, s1)"
  shows "fetch_index srv w req s =
         (Inr (case x of
                 Inl err \<Rightarrow> Response_json (message (String_of err)) 500 []
               | Inr r \<Rightarrow> r), s1)"
proof -
  have tr: "convert_index_try srv w req s = (x, s1)"
    using assms by (simp add: convert_index_try_def req_formData_def bind_io_def return_io_def)
  have "pathname req \<noteq> ''/healthz''" using assms(1) by simp
  then show ?thesis
    using assms(1) tr
    by (cases x) (simp_all add: fetch_index_def try_catch_def return_io_def)
qed

section \<open>The download of src/server/index.ts cannot open its file\<close>

lemma parent_dir_append:
  "parent_dir (x @ CHR ''/'' # g) =
     (if CHR ''/'' \<in> set g then x @ CHR ''/'' # parent_dir g else x)"
proof (cases "CHR ''/'' \<in> set g")
  case True
  then have "\<exists>c \<in> set (rev g). \<not> c \<noteq> CHR ''/''" by simp
  then have "dropWhile (\<lambda>c. c \<noteq> CHR ''/'') (rev g @ CHR ''/'' # rev x) =
             dropWhile (\<lambda>c. c \<noteq> CHR ''/'') (rev g) @ CHR ''/'' # rev x"
    by (simp add: dropWhile_append1)
  moreover have "dropWhile (\<lambda>c. c \<noteq> CHR ''/'') (rev g) \<noteq> []"
    using True by (simp add: dropWhile_eq_Nil_conv)
  ultimately show ?thesis
    using True by (simp add: parent_dir_def)
next
  case False
  then have "dropWhile (\<lambda>c. c \<noteq> CHR ''/'') (rev g @ CHR ''/'' # rev x) = CHR ''/'' # rev x"
    by (subst dropWhile_append2) auto
  then show ?thesis
    using False by (simp add: parent_dir_def)
qed

lemma models_prefixed:
  "\<exists>g. (if startsWith f ''models/'' then f else ''models/'' @ f) = ''models/'' @ g"
  by (auto simp: startsWith_def prefix_def)

lemma index_destPath_not_creatable:
  assumes "\<forall>q \<in> set disk. \<not> inside d q"
  shows "\<not> creatable (List.insert d disk) (d @ ''/'' @ ''models/'' @ g)"
proof -
  have eq: "d @ ''/'' @ ''models/'' @ g = (d @ ''/models'') @ CHR ''/'' # g"
    by simp
  obtain rest where p: "parent_dir (d @ ''/'' @ ''models/'' @ g) = (d @ ''/models'') @ rest"
    unfolding eq parent_dir_append by (cases "CHR ''/'' \<in> set g") auto
  have ins: "inside d ((d @ ''/models'') @ rest)"
    by (simp add: inside_def)
  have ne: "(d @ ''/models'') @ rest \<noteq> d" by simp
  have "(d @ ''/models'') @ rest \<notin> set disk"
    using assms ins by blast
  then show ?thesis
    unfolding creatable_def p using ne by (simp del: append_assoc)
qed

lemma convert_index_steps_fails:
  assumes "\<forall>q \<in> set (fs s). \<not> inside (FILES_FOLDER srv @ ''/'' @ randomUUID w) q"
  shows "\<exists>err s'. convert_index_steps srv w bucket f s = (Inl err, s')"
proof -
  let ?d = "FILES_FOLDER srv @ ''/'' @ randomUUID w"
  obtain g where g: "(if startsWith f ''models/'' then f else ''models/'' @ f) = ''models/'' @ g"
    using models_prefixed by blast
  show ?thesis
  proof (cases "mkdir_error w ?d")
    case (Some e)
    then show ?thesis
      by (simp add: convert_index_steps_def Let_def bind_io_def mkdir_def)
  next
    case None
    let ?s1 = "(record_effect (Mkdir ?d) s)\<lparr>fs := List.insert ?d (fs s)\<rparr>"
    have m: "mkdir w ?d s = (Inr (), ?s1)"
      using None by (simp add: mkdir_def Let_def record_effect_def)
    have nc: "\<not> creatable (fs (record_effect (Download bucket (''models/'' @ g)
                 (?d @ ''/'' @ ''models/'' @ g)) ?s1)) (?d @ ''/'' @ ''models/'' @ g)"
      using index_destPath_not_creatable [OF assms, of g] by (simp add: record_effect_def)
    have "\<exists>err s'. downloadFromGCS srv w bucket (''models/'' @ g) (?d @ ''/'' @ ''models/'' @ g) ?s1
            = (Inl err, s')"
      using nc by (cases "storage srv") (simp_all add: downloadFromGCS_def throw_def Let_def)
    then obtain err s' where dl:
      "downloadFromGCS srv w bucket (''models/'' @ g) (?d @ ''/'' @ ''models/'' @ g) ?s1 = (Inl err, s')"
      by blast
    have "convert_index_steps srv w bucket f s = (Inl err, s')"
      unfolding convert_index_steps_def Let_def g
      using m dl by (simp add: bind_io_def)
    then show ?thesis by blast
  qed
qed

lemma fetch_index_never_succeeds:
  assumes "pathname req = ''/api/convert''"
    and "\<forall>q \<in> set (fs s). \<not> inside (FILES_FOLDER srv @ ''/'' @ randomUUID w) q"
  shows "\<exists>r. fst (fetch_index srv w req s) = Inr r \<and> (status r = 400 \<or> status r = 500)"
proof -
  have nh: "pathname req \<noteq> ''/healthz''" using assms(1) by simp
  have steps: "\<exists>err s'. convert_index_steps srv w (the (GCS_BUCKET srv)) f s = (Inl err, s')" for f
    using convert_index_steps_fails [OF assms(2)] by blast
  show ?thesis
  proof (cases "formData req")
    case (Inl e)
    then show ?thesis using assms(1) nh
      by (simp add: fetch_index_def try_catch_def convert_index_try_def req_formData_def
          bind_io_def throw_def return_io_def Response_json_def Response_def)
  next
    case (Inr fd)
    show ?thesis
    proof (cases "string_field (map_of fd ''filename'')")
      case None
      then show ?thesis using assms(1) nh Inr
        by (simp add: fetch_index_def try_catch_def convert_index_try_def req_formData_def
            bind_io_def return_io_def Response_json_def Response_def)
    next
      case (Some f)
      obtain err s' where "convert_index_steps srv w (the (GCS_BUCKET srv)) f s = (Inl err, s')"
        using steps by blast
      then show ?thesis using assms(1) nh Inr Some
        by (cases "storage srv"; cases "truthy_string (GCS_BUCKET srv)")
          (simp_all add: fetch_index_def try_catch_def convert_index_try_def req_formData_def
            bind_io_def return_io_def Response_json_def Response_def)
    qed
  qed
qed

section \<open>The name of a path depends on its last component only\<close>

lemma parse_scan_char:
  assumes "start \<le> i" and "path ! i \<noteq> CHR ''/''"
  shows "parse_scan path start (Suc i) s = parse_scan path start i (scan_step (path ! i) i s)"
  using assms by (simp add: scan_step_def Let_def)

lemma scan_step_shift:
  assumes "- 1 \<le> startDot t" and "- 1 \<le> endIdx t"
  shows "scan_step ch (a + j) (shift_scan a t) = shift_scan a (scan_step ch j t)"
  using assms by (simp add: scan_step_def shift_scan_def Let_def)

lemma scan_step_bounds:
  assumes "- 1 \<le> startDot t" and "- 1 \<le> endIdx t"
  shows "- 1 \<le> startDot (scan_step ch j t) \<and> - 1 \<le> endIdx (scan_step ch j t)"
  using assms by (simp add: scan_step_def Let_def)

lemma scan_slashes:
  assumes "start \<le> j" and "\<forall>k<n. p ! (j + k) = CHR ''/''" and "matchedSlash s"
  shows "parse_scan p start (j + n) s = parse_scan p start j s"
  using assms
proof (induction n)
  case 0
  then show ?case by simp
next
  case (Suc n)
  have "p ! (j + n) = CHR ''/''" using Suc.prems(2) by simp
  then have "parse_scan p start (j + Suc n) s = parse_scan p start (j + n) s"
    using Suc.prems(1,3) by simp
  then show ?case using Suc by simp
qed

lemma scan_shift:
  assumes "start \<le> a" and "j \<le> length c" and "\<forall>k<length c. p ! (a + k) = c ! k"
    and "CHR ''/'' \<notin> set c" and "- 1 \<le> startDot t" and "- 1 \<le> endIdx t"
  shows "parse_scan p start (a + j) (shift_scan a t) =
         parse_scan p start a (shift_scan a (parse_scan c 0 j t))"
  using assms
proof (induction j arbitrary: t)
  case 0
  then show ?case by simp
next
  case (Suc j)
  have jl: "j < length c" using Suc.prems(2) by simp
  then have cj: "c ! j \<noteq> CHR ''/''" using Suc.prems(4) nth_mem by metis
  have pj: "p ! (a + j) = c ! j" using Suc.prems(3) jl by simp
  let ?t2 = "scan_step (c ! j) j t"
  have b: "- 1 \<le> startDot ?t2" "- 1 \<le> endIdx ?t2"
    using scan_step_bounds [OF Suc.prems(5,6)] by simp_all
  have "parse_scan p start (a + Suc j) (shift_scan a t) =
        parse_scan p start (a + j) (scan_step (c ! j) (a + j) (shift_scan a t))"
    using parse_scan_char [of start "a + j" p "shift_scan a t"] Suc.prems(1) pj cj by simp
  also have "\<dots> = parse_scan p start (a + j) (shift_scan a ?t2)"
    by (simp add: scan_step_shift [OF Suc.prems(5,6)])
  also have "\<dots> = parse_scan p start a (shift_scan a (parse_scan c 0 j ?t2))"
    using Suc.prems jl b by (intro Suc.IH) simp_all
  also have "parse_scan c 0 j ?t2 = parse_scan c 0 (Suc j) t"
    using parse_scan_char [of 0 j c t] cj by simp
  finally show ?case .
qed

lemma scan_component_facts:
  assumes "CHR ''/'' \<notin> set c" and "j \<le> length c"
  shows "startPart (parse_scan c 0 j t) = startPart t \<and>
         (0 < j \<and> endIdx t = - 1 \<longrightarrow>
            endIdx (parse_scan c 0 j t) = int j \<and> \<not> matchedSlash (parse_scan c 0 j t)) \<and>
         (endIdx t \<noteq> - 1 \<longrightarrow>
            endIdx (parse_scan c 0 j t) = endIdx t \<and>
            matchedSlash (parse_scan c 0 j t) = matchedSlash t) \<and>
         (- 1 \<le> startDot t \<and> startDot t < int (length c) \<longrightarrow>
            - 1 \<le> startDot (parse_scan c 0 j t) \<and>
            startDot (parse_scan c 0 j t) < int (length c))"
  using assms
proof (induction j arbitrary: t)
  case 0
  then show ?case by simp
next
  case (Suc j)
  have jl: "j < length c" using Suc.prems(2) by simp
  then have cj: "c ! j \<noteq> CHR ''/''" using Suc.prems(1) nth_mem by metis
  let ?t2 = "scan_step (c ! j) j t"
  have eq: "parse_scan c 0 (Suc j) t = parse_scan c 0 j ?t2"
    using parse_scan_char [of 0 j c t] cj by simp
  have ih: "startPart (parse_scan c 0 j ?t2) = startPart ?t2 \<and>
         (0 < j \<and> endIdx ?t2 = - 1 \<longrightarrow>
            endIdx (parse_scan c 0 j ?t2) = int j \<and> \<not> matchedSlash (parse_scan c 0 j ?t2)) \<and>
         (endIdx ?t2 \<noteq> - 1 \<longrightarrow>
            endIdx (parse_scan c 0 j ?t2) = endIdx ?t2 \<and>
            matchedSlash (parse_scan c 0 j ?t2) = matchedSlash ?t2) \<and>
         (- 1 \<le> startDot ?t2 \<and> startDot ?t2 < int (length c) \<longrightarrow>
            - 1 \<le> startDot (parse_scan c 0 j ?t2) \<and>
            startDot (parse_scan c 0 j ?t2) < int (length c))"
    using Suc.prems jl by (intro Suc.IH) simp_all
  have s1: "startPart ?t2 = startPart t"
    by (simp add: scan_step_def Let_def)
  have s2: "endIdx t = - 1 \<Longrightarrow> endIdx ?t2 = int j + 1 \<and> \<not> matchedSlash ?t2"
    by (simp add: scan_step_def Let_def)
  have s3: "endIdx t \<noteq> - 1 \<Longrightarrow> endIdx ?t2 = endIdx t \<and> matchedSlash ?t2 = matchedSlash t"
    by (simp add: scan_step_def Let_def)
  have s4: "- 1 \<le> startDot t \<and> startDot t < int (length c) \<Longrightarrow>
            - 1 \<le> startDot ?t2 \<and> startDot ?t2 < int (length c)"
    using jl by (simp add: scan_step_def Let_def)
  show ?case
    unfolding eq using ih s1 s2 s3 s4 by (cases "endIdx t = - 1") auto
qed

lemma scan_regular:
  assumes p: "p = pre @ c @ sl"
    and c: "c \<noteq> []" "CHR ''/'' \<notin> set c"
    and sl: "\<forall>x \<in> set sl. x = CHR ''/''"
    and pre: "(pre = [] \<and> start = 0) \<or> (last pre = CHR ''/'' \<and> start < length pre)"
    and T: "T = parse_scan c 0 (length c) scan0"
  shows "parse_scan p start (length p) scan0 = (shift_scan (length pre) T)\<lparr>startPart := length pre\<rparr>"
proof -
  let ?a = "length pre"
  have sa: "start \<le> ?a" using pre by auto
  have facts: "startPart T = 0" "endIdx T = int (length c)" "\<not> matchedSlash T"
    using scan_component_facts [OF c(2), of "length c" scan0] c(1) T
    by (simp_all add: scan0_def)
  have tail: "\<forall>k<length sl. p ! ((?a + length c) + k) = CHR ''/''"
    using sl by (simp add: p nth_append)
  have comp: "\<forall>k<length c. p ! (?a + k) = c ! k"
    by (simp add: p nth_append)
  have "parse_scan p start (length p) scan0 = parse_scan p start ((?a + length c) + length sl) scan0"
    by (simp add: p add.assoc)
  also have "\<dots> = parse_scan p start (?a + length c) scan0"
    using sa tail by (intro scan_slashes) (simp_all add: scan0_def)
  also have "\<dots> = parse_scan p start (?a + length c) (shift_scan ?a scan0)"
    by (simp add: shift_scan_def scan0_def)
  also have "\<dots> = parse_scan p start ?a (shift_scan ?a (parse_scan c 0 (length c) scan0))"
    using sa comp c(2) by (intro scan_shift) (simp_all add: scan0_def)
  also have "\<dots> = parse_scan p start ?a (shift_scan ?a T)"
    by (simp add: T)
  also have "\<dots> = (shift_scan ?a T)\<lparr>startPart := ?a\<rparr>"
  proof (cases "pre = []")
    case True
    then show ?thesis using facts by (simp add: shift_scan_def)
  next
    case False
    then obtain m where m: "?a = Suc m" by (cases pre) auto
    have lp: "last pre = CHR ''/''" and sm: "start \<le> m"
      using pre False m by auto
    have "p ! m = CHR ''/''"
      using lp False m by (simp add: p nth_append last_conv_nth)
    then show ?thesis
      using sm facts unfolding m by (simp add: shift_scan_def)
  qed
  finally show ?thesis .
qed

lemma parse_nonempty:
  assumes "p \<noteq> []"
    and "parse_scan p (if hd p = CHR ''/'' then 1 else 0) (length p) scan0 = F"
    and "endIdx F \<noteq> - 1"
  shows "base (parse p) =
           slice p (if startPart F = 0 \<and> hd p = CHR ''/'' then 1 else startPart F) (nat (endIdx F))"
    and "name (parse p) =
           (if no_ext F
            then slice p (if startPart F = 0 \<and> hd p = CHR ''/'' then 1 else startPart F)
                   (nat (endIdx F))
            else slice p (if startPart F = 0 \<and> hd p = CHR ''/'' then 1 else startPart F)
                   (nat (startDot F)))"
    and "ext (parse p) =
           (if no_ext F then [] else slice p (nat (startDot F)) (nat (endIdx F)))"
proof -
  show "base (parse p) =
           slice p (if startPart F = 0 \<and> hd p = CHR ''/'' then 1 else startPart F) (nat (endIdx F))"
    using assms unfolding parse_def scan0_def no_ext_def
    by (cases "hd p = CHR ''/''") (simp_all add: Let_def)
  show "name (parse p) =
           (if no_ext F
            then slice p (if startPart F = 0 \<and> hd p = CHR ''/'' then 1 else startPart F)
                   (nat (endIdx F))
            else slice p (if startPart F = 0 \<and> hd p = CHR ''/'' then 1 else startPart F)
                   (nat (startDot F)))"
    using assms unfolding parse_def scan0_def no_ext_def
    by (cases "hd p = CHR ''/''") (simp_all add: Let_def)
  show "ext (parse p) =
           (if no_ext F then [] else slice p (nat (startDot F)) (nat (endIdx F)))"
    using assms unfolding parse_def scan0_def no_ext_def
    by (cases "hd p = CHR ''/''") (simp_all add: Let_def)
qed

lemma parse_regular:
  assumes p: "p = pre @ c @ sl"
    and c: "c \<noteq> []" "CHR ''/'' \<notin> set c"
    and sl: "\<forall>x \<in> set sl. x = CHR ''/''"
    and pre: "pre = [] \<or> (last pre = CHR ''/'' \<and> (if hd pre = CHR ''/'' then 1 else 0) < length pre)"
    and T: "T = parse_scan c 0 (length c) scan0"
  shows "base (parse p) = c"
    and "name (parse p) = (if no_ext T then c else take (nat (startDot T)) c)"
    and "ext (parse p) = (if no_ext T then [] else drop (nat (startDot T)) c)"
proof -
  let ?a = "length pre"
  let ?start = "if hd p = CHR ''/'' then 1 else (0::nat)"
  define F where "F = (shift_scan ?a T)\<lparr>startPart := ?a\<rparr>"
  have ne: "p \<noteq> []" using p c(1) by simp
  have hdc: "hd c \<noteq> CHR ''/''" using c by (cases c) auto
  have hdp: "hd p = (if pre = [] then hd c else hd pre)"
    using p c(1) by (cases pre) simp_all
  have reg: "(pre = [] \<and> ?start = 0) \<or> (last pre = CHR ''/'' \<and> ?start < length pre)"
    using pre hdp hdc by (cases "pre = []") auto
  have sc: "parse_scan p ?start (length p) scan0 = F"
    unfolding F_def by (rule scan_regular [OF p c sl reg T])
  have facts: "startPart T = 0" "endIdx T = int (length c)"
    "- 1 \<le> startDot T" "startDot T < int (length c)"
    using scan_component_facts [OF c(2), of "length c" scan0] c(1) T
    by (simp_all add: scan0_def)
  have eF: "endIdx F = int (length c) + int ?a" and pF: "startPart F = ?a"
    and dF: "startDot F = (if startDot T = - 1 then - 1 else startDot T + int ?a)"
    and qF: "preDotState F = preDotState T"
    using facts by (simp_all add: F_def shift_scan_def)
  have eF1: "endIdx F \<noteq> - 1" using eF by simp
  have nx: "no_ext F = no_ext T"
    using facts by (auto simp: no_ext_def eF pF dF qF)
  have fr: "(if startPart F = 0 \<and> hd p = CHR ''/'' then 1 else startPart F) = ?a"
    using hdp hdc by (simp add: pF)
  have dr: "drop ?a p = c @ sl" by (simp add: p)
  have whole: "slice p ?a (nat (endIdx F)) = c"
    by (simp add: slice_def eF dr nat_add_distrib)
  have parts: "slice p ?a (nat (startDot F)) = take (nat (startDot T)) c \<and>
               slice p (nat (startDot F)) (nat (endIdx F)) = drop (nat (startDot T)) c"
    if "\<not> no_ext T"
  proof -
    have "startDot T \<noteq> - 1" using that by (auto simp: no_ext_def)
    then have "0 \<le> startDot T" using facts(3) by simp
    then obtain n where n: "startDot T = int n" "n < length c"
      using facts(4) by (cases "startDot T") simp_all
    have dn: "startDot F = int (n + ?a)" using n by (simp add: dF)
    have d2: "drop (n + ?a) p = drop n (c @ sl)"
      using dr by (metis add.commute drop_drop)
    show ?thesis
      using n(2) by (simp add: slice_def dn n(1) eF dr d2 nat_add_distrib)
  qed
  show "base (parse p) = c"
    using parse_nonempty(1) [OF ne sc eF1] by (simp only: fr whole)
  show "name (parse p) = (if no_ext T then c else take (nat (startDot T)) c)"
    using parse_nonempty(2) [OF ne sc eF1] parts by (simp only: fr whole nx) simp
  show "ext (parse p) = (if no_ext T then [] else drop (nat (startDot T)) c)"
    using parse_nonempty(3) [OF ne sc eF1] parts by (simp only: nx) simp
qed

lemma last_component:
  assumes "\<exists>x \<in> set p. x \<noteq> CHR ''/''"
  shows "\<exists>pre c sl. p = pre @ c @ sl \<and> c \<noteq> [] \<and> CHR ''/'' \<notin> set c \<and>
           (\<forall>x \<in> set sl. x = CHR ''/'') \<and> (pre = [] \<or> last pre = CHR ''/'')"
proof -
  have "\<exists>ys x sl. p = ys @ x # sl \<and> x \<noteq> CHR ''/'' \<and> (\<forall>z \<in> set sl. \<not> z \<noteq> CHR ''/'')"
    using assms by (rule split_list_last_prop)
  then obtain ys x sl where s: "p = ys @ x # sl" "x \<noteq> CHR ''/''" "\<forall>z \<in> set sl. \<not> z \<noteq> CHR ''/''"
    by (elim exE conjE)
  have sl: "\<forall>z \<in> set sl. z = CHR ''/''" using s(3) by simp
  show ?thesis
  proof (cases "CHR ''/'' \<in> set ys")
    case True
    have "\<exists>pre' c'. ys = pre' @ CHR ''/'' # c' \<and> CHR ''/'' \<notin> set c'"
      using True by (rule split_list_last)
    then obtain pre' c' where y: "ys = pre' @ CHR ''/'' # c'" "CHR ''/'' \<notin> set c'"
      by (elim exE conjE)
    have 1: "p = (pre' @ [CHR ''/'']) @ (c' @ [x]) @ sl" using s(1) y(1) by simp
    have 2: "c' @ [x] \<noteq> []" by simp
    have 3: "CHR ''/'' \<notin> set (c' @ [x])" using y(2) s(2) by simp
    have 4: "last (pre' @ [CHR ''/'']) = CHR ''/''" by simp
    show ?thesis
      by (rule exI [of _ "pre' @ [CHR ''/'']"], rule exI [of _ "c' @ [x]"], rule exI [of _ sl])
        (use 1 2 3 4 sl in \<open>intro conjI disjI2\<close>)
  next
    case False
    have 1: "p = [] @ (ys @ [x]) @ sl" using s(1) by simp
    have 2: "ys @ [x] \<noteq> []" by simp
    have 3: "CHR ''/'' \<notin> set (ys @ [x])" using False s(2) by simp
    show ?thesis
      by (rule exI [of _ "[]"], rule exI [of _ "ys @ [x]"], rule exI [of _ sl])
        (use 1 2 3 sl in \<open>intro conjI disjI1 refl\<close>)
  qed
qed

lemma parse_same_component:
  assumes "\<exists>x \<in> set orig. x \<noteq> CHR ''/''" and "hd orig \<noteq> CHR ''/''" and "L \<noteq> []"
  shows "name (parse (L @ ''/'' @ base (parse orig))) = name (parse orig)"
proof -
  obtain pre c sl where d: "orig = pre @ c @ sl" "c \<noteq> []" "CHR ''/'' \<notin> set c"
      "\<forall>x \<in> set sl. x = CHR ''/''" "pre = [] \<or> last pre = CHR ''/''"
    using last_component [OF assms(1)] by (elim exE conjE)
  define T where "T = parse_scan c 0 (length c) scan0"
  have hp: "pre \<noteq> [] \<Longrightarrow> hd pre \<noteq> CHR ''/''"
    using assms(2) d(1) by (cases pre) simp_all
  have r1: "pre = [] \<or> (last pre = CHR ''/'' \<and> (if hd pre = CHR ''/'' then 1 else 0) < length pre)"
    using d(5) hp by (cases "pre = []") auto
  have b: "base (parse orig) = c"
    and n: "name (parse orig) = (if no_ext T then c else take (nat (startDot T)) c)"
    using parse_regular [OF d(1) d(2) d(3) d(4) r1 T_def] by simp_all
  have p2: "L @ ''/'' @ c = (L @ [CHR ''/'']) @ c @ []" by simp
  have r2: "L @ [CHR ''/''] = [] \<or>
            (last (L @ [CHR ''/'']) = CHR ''/'' \<and>
             (if hd (L @ [CHR ''/'']) = CHR ''/'' then 1 else 0) < length (L @ [CHR ''/'']))"
    using assms(3) by (cases L) auto
  have e: "\<forall>x \<in> set []. x = CHR ''/''" by simp
  have "name (parse (L @ ''/'' @ c)) = (if no_ext T then c else take (nat (startDot T)) c)"
    using parse_regular(2) [OF p2 d(2) d(3) e r2 T_def] .
  then show ?thesis by (simp only: b n)
qed

lemma originalName_shape:
  "(\<exists>x \<in> set (originalName f). x \<noteq> CHR ''/'') \<and> hd (originalName f) \<noteq> CHR ''/''"
proof -
  obtain g where "originalName f = ''models/'' @ g"
    using models_prefixed [of f] unfolding originalName_def by (elim exE)
  then show ?thesis by simp
qed

lemma uploadToGCS_Inr:
  assumes "uploadToGCS srv w b p n s = (Inr u, s')"
  shows "s' = record_effect (Upload b p n) s \<and> p \<in> set (fs s)"
  using assms
  by (cases "storage srv"; cases "p \<in> set (fs s)"; cases "upload_error w b p n")
    (simp_all add: uploadToGCS_def throw_def Let_def record_effect_def)

lemma getSignedUrl_state:
  assumes "getSignedUrl srv w b n s = (Inr url, s')"
  shows "s' = record_effect (Sign b n \<lparr>action = Read_action, expires = Date_now w + 3600000\<rparr>) s"
  using assms
  by (cases "storage srv") (auto simp: getSignedUrl_def throw_def Let_def)

section \<open>A successful run of the conversion steps\<close>

lemma bind_io_InrE:
  assumes "bind_io m f s = (Inr r, s')"
  obtains a s1 where "m s = (Inr a, s1)" and "f a s1 = (Inr r, s')"
  using assms by (auto simp: bind_io_Inr)

lemma convert_steps_success:
  assumes "convert_steps srv w bucket f s = (Inr r, s')"
  shows "\<exists>url.
           r = Response_json
                 (JObject [(''id'', JString (randomUUID w)), (''name'', JString (convertedName f)),
                           (''uploadedUrl'', JString url),
                           (''objectPath'', JString (destObjectName f))])
                 200 (CORS_HEADERS srv) \<and>
           signed_url w bucket (destObjectName f)
             \<lparr>action = Read_action, expires = Date_now w + 3600000\<rparr> = Inr url \<and>
           Upload bucket (FILES_FOLDER srv @ ''/'' @ randomUUID w @ ''/'' @ destObjectName f)
             (destObjectName f) \<in> set (effects s')"
proof -
  let ?orig = "originalName f"
  let ?d = "FILES_FOLDER srv @ ''/'' @ randomUUID w"
  let ?local = "?d @ ''/'' @ dir (parse ?orig)"
  have "?local \<noteq> []" by simp
  then have "name (parse (?local @ ''/'' @ base (parse ?orig))) = name (parse ?orig)"
    using originalName_shape [of f] by (intro parse_same_component) blast+
  then have nmeq: "name (parse (?local @ ''/'' @ base (parse ?orig))) @ ''.usdz'' = convertedName f"
    by (simp only: convertedName_def)
  have dest: "dir (parse ?orig) @ ''/'' @ name (parse ?orig) @ ''.usdz'' = destObjectName f"
    by (simp add: destObjectName_def convertedName_def)
  have loc: "?local @ ''/'' @ name (parse ?orig) @ ''.usdz'' = ?d @ ''/'' @ destObjectName f"
    by (simp add: destObjectName_def convertedName_def)
  show ?thesis
    using assms
    unfolding convert_steps_def Let_def originalName_def [symmetric] nmeq dest loc
    apply (elim bind_io_InrE)
    apply (drule convertFile_name)
    apply (frule getSignedUrl_Inr)
    apply (drule getSignedUrl_state)
    apply (drule uploadToGCS_Inr)
    apply (unfold nmeq)
    apply (auto simp: return_io_def record_effect_def)
    done
qed

lemma convert_try_validated:
  assumes "convert_try srv w req s = (Inr r, s')" and "status r = 200"
  shows "\<exists>fd f client. req_method req = ''POST'' \<and> formData req = Inr fd \<and>
           string_field (map_of fd ''filename'') = Some f \<and> storage srv = Some client \<and>
           truthy_string (GCS_BUCKET srv) \<and>
           convert_steps srv w (the (GCS_BUCKET srv)) f s = (Inr r, s')"
proof -
  have m: "req_method req = ''POST''"
    using assms
    by (cases "req_method req = ''POST''")
      (auto simp: convert_try_def return_io_def Response_json_def Response_def)
  obtain fd where fd: "formData req = Inr fd"
    using assms m
    by (cases "formData req") (auto simp: convert_try_def req_formData_def bind_io_def throw_def)
  obtain f where f: "string_field (map_of fd ''filename'') = Some f"
    using assms m fd
    by (cases "string_field (map_of fd ''filename'')")
      (auto simp: convert_try_def req_formData_def bind_io_def return_io_def Response_json_def
        Response_def)
  obtain client where c: "storage srv = Some client"
    using assms m fd f
    by (cases "storage srv")
      (auto simp: convert_try_def req_formData_def bind_io_def return_io_def Response_json_def
        Response_def)
  have b: "truthy_string (GCS_BUCKET srv)"
    using assms m fd f c
    by (cases "truthy_string (GCS_BUCKET srv)")
      (auto simp: convert_try_def req_formData_def bind_io_def return_io_def Response_json_def
        Response_def)
  have "convert_try srv w req s = convert_steps srv w (the (GCS_BUCKET srv)) f s"
    using m fd f c b by (simp add: convert_try_def req_formData_def bind_io_def return_io_def)
  then have "convert_steps srv w (the (GCS_BUCKET srv)) f s = (Inr r, s')"
    using assms(1) by simp
  then show ?thesis using m fd f c b by (intro exI conjI)
qed

section \<open>The example servers\<close>

lemma server_configured_fields:
  "storage server_configured = Some Storage_client"
  "truthy_string (GCS_BUCKET server_configured)"
  "FILES_FOLDER server_configured = ''/data''"
  "ALLOWED_ORIGIN server_configured = ''https://ar.example''"
  by (simp_all add: server_configured_def startup_def or_else_def)

lemma server_unconfigured_fields:
  "storage server_unconfigured = None"
  "ALLOWED_ORIGIN server_unconfigured = ''*''"
  by (simp_all add: server_unconfigured_def startup_def or_else_def)

section \<open>Claims\<close>

subsection \<open>C1: a missing output file\<close>

text \<open>
  Claim C1: whenever the converter subprocess leaves no file at the derived output
  path, \<^verbatim>\<open>convertFile\<close> throws and the \<^verbatim>\<open>/api/convert\<close> handler answers with an error,
  never with a success body.

  The code does not do this. \<^verbatim>\<open>convertFile\<close> tests \<^verbatim>\<open>!outputFile.exists()\<close>, the
  negation of a promise, which is never true: by \<open>convertFile_exited\<close> it returns the
  name whenever the subprocess exits, and by \<open>convertFile_throws\<close> it throws nothing
  but a failure to spawn. Evaluated on the local variant with a
  converter that writes nothing: the upload of \<^verbatim>\<open>chair.glb\<close> is written, the converter
  is spawned, no \<^verbatim>\<open>chair.usdz\<close> exists afterwards, \<^verbatim>\<open>convertFile\<close> returns
  \<^verbatim>\<open>chair.usdz\<close> and the handler answers 200 with \<^verbatim>\<open>{id, name}\<close>.
\<close>

theorem missing_output_not_reported:
  "convertFile world_no_output ''/usr/app/gltf2usdz/files/9f8b/chair.glb'' empty_disk =
     (Inr ''chair.usdz'',
      \<lparr>fs = [],
       effects = [Spawn [''usd_from_gltf'', ''/usr/app/gltf2usdz/files/9f8b/chair.glb'',
                         ''/usr/app/gltf2usdz/files/9f8b/chair.usdz'']],
       tmp_dir = None\<rparr>) \<and>
   fetch_local world_no_output (post_file ''chair.glb'') empty_disk =
     (Inr (Response_json (JObject [(''id'', JString ''9f8b''),
                                   (''name'', JString ''chair.usdz'')]) 200 []),
      \<lparr>fs = [''/usr/app/gltf2usdz/files/9f8b/chair.glb''],
       effects = [WriteFile ''/usr/app/gltf2usdz/files/9f8b/chair.glb'',
                  Spawn [''usd_from_gltf'', ''/usr/app/gltf2usdz/files/9f8b/chair.glb'',
                         ''/usr/app/gltf2usdz/files/9f8b/chair.usdz'']],
       tmp_dir = None\<rparr>)"
  by code_simp

subsection \<open>C2: uploads with another extension\<close>

text \<open>
  Claim C2, as amended: in the local variant, an upload whose file name ends neither in
  \<^verbatim>\<open>.gltf\<close> nor in \<^verbatim>\<open>.glb\<close> is answered with status 500 and the JSON message of the
  thrown error, and nothing is done for it: the state, and with it the list of effects,
  is unchanged, so no file is written and no subprocess is spawned.
\<close>

theorem bad_extension_rejected:
  assumes "pathname req = ''/api/convert''" and "formData req = Inr fd"
    and "map_of fd ''file'' = Some (FormFile n)"
    and "\<not> endsWith n ''.gltf''" and "\<not> endsWith n ''.glb''"
  shows "fetch_local w req s =
         (Inr (Response_json (message ''Error: You must upload a glb/gltf file.'') 500 []), s)"
  using assms
  by (simp add: fetch_local_def try_catch_def convert_local_try_def req_formData_def bind_io_def
      return_io_def throw_def must_upload_def)

text \<open>The theorem of C2 at the upload of \<^verbatim>\<open>chair.txt\<close>.\<close>

theorem bad_extension_rejected_witness:
  "pathname (post_file ''chair.txt'') = ''/api/convert'' \<and>
   \<not> endsWith ''chair.txt'' ''.gltf'' \<and> \<not> endsWith ''chair.txt'' ''.glb'' \<and>
   fetch_local world_ok (post_file ''chair.txt'') empty_disk =
     (Inr (Response_json (message ''Error: You must upload a glb/gltf file.'') 500 []), empty_disk)"
proof -
  have h1: "pathname (post_file ''chair.txt'') = ''/api/convert''"
    by (simp add: post_file_def)
  have h2: "formData (post_file ''chair.txt'') = Inr [(''file'', FormFile ''chair.txt'')]"
    by (simp add: post_file_def)
  have h3: "map_of [(''file'', FormFile ''chair.txt'')] ''file'' = Some (FormFile ''chair.txt'')"
    by simp
  have h4: "\<not> endsWith ''chair.txt'' ''.gltf''"
    by (simp add: endsWith_def suffix_to_prefix)
  have h5: "\<not> endsWith ''chair.txt'' ''.glb''"
    by (simp add: endsWith_def suffix_to_prefix)
  show ?thesis
    using bad_extension_rejected [OF h1 h2 h3 h4 h5, of world_ok empty_disk] h1 h4 h5 by simp
qed

text \<open>
  C2 as stated asks for a 4xx status: the upload of \<^verbatim>\<open>chair.txt\<close> is answered 500,
  since the handler throws into the \<^verbatim>\<open>catch\<close> that answers every error with 500.
\<close>

theorem bad_extension_status_500:
  "fst (fetch_local world_ok (post_file ''chair.txt'') empty_disk) =
     Inr \<lparr>status = 500, headers = [],
          body = Json (JObject [(''message'', JString ''Error: You must upload a glb/gltf file.'')])\<rparr>"
  by code_simp

subsection \<open>C3: removal of the per-request directory\<close>

text \<open>
  Claim C3, as amended: in the cloud variant with cleanup, for every POST to
  \<^verbatim>\<open>/api/convert\<close> that passes the validations (and so assigns the per-request
  directory and asks for it to be made), whatever the outcome of the conversion and of
  the removal: a response is returned; the last effect of the request is the recursive
  removal of that directory; and the response is the same whatever the removal does,
  a failed removal being caught. When the removal does not fail, no path at or under
  the directory exists afterwards; when it fails and the directory had been made, the
  directory is still there. In the revision of \<^verbatim>\<open>src/server/index.ts\<close> the directory,
  once made, is there after the request.
\<close>

theorem cleanup_removes_directory:
  assumes "req_method req = ''POST''" and "pathname req = ''/api/convert''"
    and "formData req = Inr fd" and "string_field (map_of fd ''filename'') = Some f"
    and "storage srv = Some client" and "truthy_string (GCS_BUCKET srv)"
  shows "(\<exists>r. fst (fetch_cloud srv w req s) = Inr r) \<and>
         last (effects (snd (fetch_cloud srv w req s))) =
           RmRf (FILES_FOLDER srv @ ''/'' @ randomUUID w) \<and>
         fst (fetch_cloud srv (w\<lparr>rm_error := g\<rparr>) req s) = fst (fetch_cloud srv w req s) \<and>
         (rm_error w (FILES_FOLDER srv @ ''/'' @ randomUUID w) = None \<longrightarrow>
            (\<forall>q \<in> set (fs (snd (fetch_cloud srv w req s))).
               \<not> inside (FILES_FOLDER srv @ ''/'' @ randomUUID w) q)) \<and>
         (rm_error w (FILES_FOLDER srv @ ''/'' @ randomUUID w) = Some e \<and>
          mkdir_error w (FILES_FOLDER srv @ ''/'' @ randomUUID w) = None \<longrightarrow>
            FILES_FOLDER srv @ ''/'' @ randomUUID w \<in> set (fs (snd (fetch_cloud srv w req s)))) \<and>
         (mkdir_error w (FILES_FOLDER srv @ ''/'' @ randomUUID w) = None \<longrightarrow>
            FILES_FOLDER srv @ ''/'' @ randomUUID w \<in> set (fs (snd (fetch_index srv w req s))))"
proof -
  let ?d = "FILES_FOLDER srv @ ''/'' @ randomUUID w"
  let ?b = "the (GCS_BUCKET srv)"
  let ?s0 = "s\<lparr>tmp_dir := None\<rparr>"
  let ?w' = "w\<lparr>rm_error := g\<rparr>"
  obtain x s1 where st: "convert_steps srv w ?b f ?s0 = (x, s1)"
    by (cases "convert_steps srv w ?b f ?s0")
  then have st': "convert_steps srv ?w' ?b f ?s0 = (x, s1)"
    by (simp add: convert_steps_ignores_rm)
  note run = fetch_cloud_validated [OF assms st]
  have run': "fst (fetch_cloud srv ?w' req s) =
      Inr (case x of
             Inl err \<Rightarrow> Response_json (message (String_of err)) 500 (CORS_HEADERS srv)
           | Inr r \<Rightarrow> r)"
    using fetch_cloud_validated [OF assms, of ?w' s x s1] st' by simp
  have kept: "mkdir_error w ?d = None \<Longrightarrow> ?d \<in> set (fs s1)"
    using convert_steps_keeps_dir [of w srv ?b f ?s0] st by simp
  obtain y s2 where ix: "convert_index_steps srv w ?b f s = (y, s2)"
    by (cases "convert_index_steps srv w ?b f s")
  have kept_index: "mkdir_error w ?d = None \<Longrightarrow> ?d \<in> set (fs s2)"
    using convert_index_steps_keeps_dir [of w srv ?b f s] ix by simp
  have a: "\<exists>r. fst (fetch_cloud srv w req s) = Inr r"
    by (simp add: run)
  have b: "last (effects (snd (fetch_cloud srv w req s))) = RmRf ?d"
    by (simp add: run record_effect_def split: option.splits)
  have c: "fst (fetch_cloud srv ?w' req s) = fst (fetch_cloud srv w req s)"
    by (simp add: run run')
  have d: "rm_error w ?d = None \<longrightarrow>
           (\<forall>q \<in> set (fs (snd (fetch_cloud srv w req s))). \<not> inside ?d q)"
    by (simp add: run record_effect_def)
  have e: "rm_error w ?d = Some e \<and> mkdir_error w ?d = None \<longrightarrow>
           ?d \<in> set (fs (snd (fetch_cloud srv w req s)))"
    using kept by (simp add: run record_effect_def)
  have f: "mkdir_error w ?d = None \<longrightarrow> ?d \<in> set (fs (snd (fetch_index srv w req s)))"
    using kept_index by (simp add: fetch_index_validated [OF assms(2-6) ix])
  show ?thesis using a b c d e f by blast
qed

text \<open>
  The theorem of C3 at a request for \<^verbatim>\<open>models/chair.glb\<close> on a configured server, in a
  world where the removal succeeds and in one where it fails.
\<close>

theorem cleanup_removes_directory_witness:
  "req_method (post_filename (FormString ''models/chair.glb'')) = ''POST'' \<and>
   storage server_configured = Some Storage_client \<and>
   rm_error world_ok ''/data/9f8b'' = None \<and>
   (\<exists>r. fst (fetch_cloud server_configured world_ok
              (post_filename (FormString ''models/chair.glb'')) empty_disk) = Inr r) \<and>
   last (effects (snd (fetch_cloud server_configured world_ok
                         (post_filename (FormString ''models/chair.glb'')) empty_disk))) =
     RmRf ''/data/9f8b'' \<and>
   list_all (\<lambda>q. \<not> inside ''/data/9f8b'' q)
     (fs (snd (fetch_cloud server_configured world_ok
                 (post_filename (FormString ''models/chair.glb'')) empty_disk))) \<and>
   rm_error world_rm_fails ''/data/9f8b'' = Some (Exn ''Error'' ''EACCES: permission denied'') \<and>
   mkdir_error world_rm_fails ''/data/9f8b'' = None \<and>
   (\<exists>r. fst (fetch_cloud server_configured world_rm_fails
              (post_filename (FormString ''models/chair.glb'')) empty_disk) = Inr r) \<and>
   ''/data/9f8b'' \<in> set (fs (snd (fetch_cloud server_configured world_rm_fails
                 (post_filename (FormString ''models/chair.glb'')) empty_disk))) \<and>
   ''/data/9f8b'' \<in> set (fs (snd (fetch_index server_configured world_ok
                 (post_filename (FormString ''models/chair.glb'')) empty_disk)))"
proof -
  let ?req = "post_filename (FormString ''models/chair.glb'')"
  have h1: "req_method ?req = ''POST''" and h2: "pathname ?req = ''/api/convert''"
    and h3: "formData ?req = Inr [(''filename'', FormString ''models/chair.glb'')]"
    by (simp_all add: post_filename_def)
  have h4: "string_field (map_of [(''filename'', FormString ''models/chair.glb'')] ''filename'')
            = Some ''models/chair.glb''"
    by simp
  have d: "FILES_FOLDER server_configured @ ''/'' @ randomUUID world_ok = ''/data/9f8b''"
    and d': "FILES_FOLDER server_configured @ ''/'' @ randomUUID world_rm_fails = ''/data/9f8b''"
    by (simp_all add: server_configured_fields world_ok_def world_rm_fails_def)
  have w1: "rm_error world_ok ''/data/9f8b'' = None"
    and w2: "mkdir_error world_ok ''/data/9f8b'' = None"
    and w3: "rm_error world_rm_fails ''/data/9f8b'' = Some (Exn ''Error'' ''EACCES: permission denied'')"
    and w4: "mkdir_error world_rm_fails ''/data/9f8b'' = None"
    by (simp_all add: world_ok_def world_rm_fails_def)
  note ok = cleanup_removes_directory
      [OF h1 h2 h3 h4 server_configured_fields(1,2), of world_ok empty_disk, unfolded d]
  note bad = cleanup_removes_directory
      [OF h1 h2 h3 h4 server_configured_fields(1,2), of world_rm_fails empty_disk _
         "Exn ''Error'' ''EACCES: permission denied''", unfolded d']
  show ?thesis
    using ok bad h1 w1 w2 w3 w4 server_configured_fields(1)
    by (simp add: list_all_iff)
qed

text \<open>
  C3 as stated says the directory no longer exists after any request. It stays when the
  removal fails (the failure is caught and only logged), and the revision of
  \<^verbatim>\<open>src/server/index.ts\<close> never removes it: here after a failed download.
\<close>

theorem directory_left_behind:
  "''/data/9f8b'' \<in> set (fs (snd
      (fetch_cloud server_configured world_rm_fails
         (post_filename (FormString ''models/chair.glb'')) empty_disk))) \<and>
   ''/data/9f8b'' \<in> set (fs (snd
      (fetch_index server_configured world_download_fails
         (post_filename (FormString ''models/chair.glb'')) empty_disk)))"
  by code_simp

subsection \<open>C4: the output path\<close>

text \<open>
  Claim C4: \<^verbatim>\<open>convertFile\<close> derives the output path by replacing the trailing
  extension of the input path with \<^verbatim>\<open>.usdz\<close> and spawns the converter with the input
  and that output path.

  The converter is spawned with \<^verbatim>\<open>(filepath, output)\<close>, but \<^verbatim>\<open>output\<close> is
  \<^verbatim>\<open>filepath.replace(ext, ".usdz")\<close>, which replaces the first occurrence of the
  extension in the whole path (\<open>output_path_plain\<close> gives a case in which that is the
  trailing one: no dot before the extension). For the upload \<^verbatim>\<open>a.glb.glb\<close> the
  converter is told to write \<^verbatim>\<open>a.usdz.glb\<close>, while the name returned to the client is
  \<^verbatim>\<open>a.glb.usdz\<close>; for a path without extension, which the cloud revisions accept,
  \<^verbatim>\<open>.usdz\<close> is put in front of the whole path.
\<close>

theorem output_path_first_occurrence:
  "output_path ''/usr/app/gltf2usdz/files/9f8b/a.glb.glb'' =
     ''/usr/app/gltf2usdz/files/9f8b/a.usdz.glb'' \<and>
   output_path ''/data/9f8b/models/chair'' = ''.usdz/data/9f8b/models/chair'' \<and>
   fetch_local world_ok (post_file ''a.glb.glb'') empty_disk =
     (Inr (Response_json (JObject [(''id'', JString ''9f8b''),
                                   (''name'', JString ''a.glb.usdz'')]) 200 []),
      \<lparr>fs = [''/usr/app/gltf2usdz/files/9f8b/a.glb.glb'',
             ''/usr/app/gltf2usdz/files/9f8b/a.usdz.glb''],
       effects = [WriteFile ''/usr/app/gltf2usdz/files/9f8b/a.glb.glb'',
                  Spawn [''usd_from_gltf'', ''/usr/app/gltf2usdz/files/9f8b/a.glb.glb'',
                         ''/usr/app/gltf2usdz/files/9f8b/a.usdz.glb'']],
       tmp_dir = None\<rparr>)"
  by code_simp

subsection \<open>C5: the success body of the cloud variant\<close>

text \<open>
  Claim C5: in the cloud variant, every successful answer of \<^verbatim>\<open>/api/convert\<close> has a
  JSON body with the request identifier, the converted file's name, a signed download
  URL and the object's storage path.

  In the revision with CORS and cleanup every 200 answer has the body
  \<^verbatim>\<open>{id, name, uploadedUrl, objectPath}\<close>, where for the \<^verbatim>\<open>filename\<close> field \<open>f\<close> of the
  request \<^verbatim>\<open>id\<close> is the identifier drawn, \<^verbatim>\<open>objectPath\<close> is \<open>destObjectName f\<close>, the
  object to which the request uploaded the local file of that path under the request
  directory, \<^verbatim>\<open>name\<close> is \<open>convertedName f\<close>, with which both paths end, and
  \<^verbatim>\<open>uploadedUrl\<close> is what the SDK signed for that object. The revision of
  \<^verbatim>\<open>src/server/index.ts\<close> has no successful answer: on a disk that holds nothing at or
  under the fresh request directory, its download cannot open its file, and the answer
  is 400 or 500.
\<close>

theorem success_body:
  assumes "pathname req = ''/api/convert''"
  shows "(fetch_cloud srv w req s = (Inr r, s') \<and> status r = 200 \<longrightarrow>
            (\<exists>fd f url.
               formData req = Inr fd \<and> string_field (map_of fd ''filename'') = Some f \<and>
               body r = Json (JObject [(''id'', JString (randomUUID w)),
                                       (''name'', JString (convertedName f)),
                                       (''uploadedUrl'', JString url),
                                       (''objectPath'', JString (destObjectName f))]) \<and>
               signed_url w (the (GCS_BUCKET srv)) (destObjectName f)
                 \<lparr>action = Read_action, expires = Date_now w + 3600000\<rparr> = Inr url \<and>
               Upload (the (GCS_BUCKET srv))
                 (FILES_FOLDER srv @ ''/'' @ randomUUID w @ ''/'' @ destObjectName f)
                 (destObjectName f) \<in> set (effects s'))) \<and>
         ((\<forall>q \<in> set (fs s). \<not> inside (FILES_FOLDER srv @ ''/'' @ randomUUID w) q) \<longrightarrow>
            (\<exists>r. fst (fetch_index srv w req s) = Inr r \<and> (status r = 400 \<or> status r = 500)))"
proof (intro conjI impI)
  let ?d = "FILES_FOLDER srv @ ''/'' @ randomUUID w"
  let ?b = "the (GCS_BUCKET srv)"
  let ?s0 = "s\<lparr>tmp_dir := None\<rparr>"
  assume a: "fetch_cloud srv w req s = (Inr r, s') \<and> status r = 200"
  then have "convert_cloud srv w req s = (Inr r, s')"
    using assms by (auto simp: fetch_cloud_def return_io_def Response_def split: if_splits)
  then obtain s1 where "convert_try srv w req ?s0 = (Inr r, s1)"
    using a convert_cloud_success by blast
  then obtain fd f client where v: "req_method req = ''POST''" "formData req = Inr fd"
      "string_field (map_of fd ''filename'') = Some f" "storage srv = Some client"
      "truthy_string (GCS_BUCKET srv)"
    and st: "convert_steps srv w ?b f ?s0 = (Inr r, s1)"
    using a convert_try_validated [of srv w req ?s0 r s1] by (elim exE conjE) blast
  have run: "fetch_cloud srv w req s =
      (Inr r, case rm_error w ?d of
                None \<Rightarrow> (record_effect (RmRf ?d) s1)\<lparr>fs := filter (\<lambda>q. \<not> inside ?d q) (fs s1)\<rparr>
              | Some e \<Rightarrow> record_effect (RmRf ?d) s1)"
    using fetch_cloud_validated [OF v(1) assms v(2-5) st] by simp
  have eff: "effects s' = effects s1 @ [RmRf ?d]"
    using a run by (auto simp: record_effect_def split: option.splits)
  obtain url where u: "r = Response_json
                 (JObject [(''id'', JString (randomUUID w)), (''name'', JString (convertedName f)),
                           (''uploadedUrl'', JString url),
                           (''objectPath'', JString (destObjectName f))])
                 200 (CORS_HEADERS srv)"
    "signed_url w ?b (destObjectName f)
             \<lparr>action = Read_action, expires = Date_now w + 3600000\<rparr> = Inr url"
    "Upload ?b (FILES_FOLDER srv @ ''/'' @ randomUUID w @ ''/'' @ destObjectName f)
       (destObjectName f) \<in> set (effects s1)"
    using convert_steps_success [OF st] by (elim exE conjE)
  have b: "body r = Json (JObject [(''id'', JString (randomUUID w)),
                                       (''name'', JString (convertedName f)),
                                       (''uploadedUrl'', JString url),
                                       (''objectPath'', JString (destObjectName f))])"
    by (simp add: u(1) Response_json_def Response_def)
  have up: "Upload ?b (FILES_FOLDER srv @ ''/'' @ randomUUID w @ ''/'' @ destObjectName f)
              (destObjectName f) \<in> set (effects s')"
    using u(3) by (simp add: eff)
  show "\<exists>fd f url.
               formData req = Inr fd \<and> string_field (map_of fd ''filename'') = Some f \<and>
               body r = Json (JObject [(''id'', JString (randomUUID w)),
                                       (''name'', JString (convertedName f)),
                                       (''uploadedUrl'', JString url),
                                       (''objectPath'', JString (destObjectName f))]) \<and>
               signed_url w (the (GCS_BUCKET srv)) (destObjectName f)
                 \<lparr>action = Read_action, expires = Date_now w + 3600000\<rparr> = Inr url \<and>
               Upload (the (GCS_BUCKET srv))
                 (FILES_FOLDER srv @ ''/'' @ randomUUID w @ ''/'' @ destObjectName f)
                 (destObjectName f) \<in> set (effects s')"
    using v(2,3) b u(2) up by (intro exI conjI)
next
  assume "\<forall>q \<in> set (fs s). \<not> inside (FILES_FOLDER srv @ ''/'' @ randomUUID w) q"
  then show "\<exists>r. fst (fetch_index srv w req s) = Inr r \<and> (status r = 400 \<or> status r = 500)"
    using assms by (intro fetch_index_never_succeeds)
qed

text \<open>The theorem of C5 at a successful request for \<^verbatim>\<open>models/chair.glb\<close>.\<close>

theorem success_body_witness:
  "pathname (post_filename (FormString ''models/chair.glb'')) = ''/api/convert'' \<and>
   status (projr (fst (fetch_cloud server_configured world_ok
                         (post_filename (FormString ''models/chair.glb'')) empty_disk))) = 200 \<and>
   body (projr (fst (fetch_cloud server_configured world_ok
                       (post_filename (FormString ''models/chair.glb'')) empty_disk))) =
     Json (JObject [(''id'', JString ''9f8b''), (''name'', JString ''chair.usdz''),
                    (''uploadedUrl'', JString ''https://bkt/models/chair.usdz''),
                    (''objectPath'', JString ''models/chair.usdz'')]) \<and>
   convertedName ''models/chair.glb'' = ''chair.usdz'' \<and>
   destObjectName ''models/chair.glb'' = ''models/chair.usdz'' \<and>
   (\<exists>r. fst (fetch_index server_configured world_ok
              (post_filename (FormString ''models/chair.glb'')) empty_disk) = Inr r \<and>
         (status r = 400 \<or> status r = 500))"
proof -
  let ?req = "post_filename (FormString ''models/chair.glb'')"
  let ?r = "\<lparr>status = 200, headers = CORS_HEADERS server_configured,
             body = Json (JObject [(''id'', JString ''9f8b''), (''name'', JString ''chair.usdz''),
                    (''uploadedUrl'', JString ''https://bkt/models/chair.usdz''),
                    (''objectPath'', JString ''models/chair.usdz'')])\<rparr>"
  let ?s' = "snd (fetch_cloud server_configured world_ok ?req empty_disk)"
  have h1: "pathname ?req = ''/api/convert''"
    by (simp add: post_filename_def)
  have ev: "fst (fetch_cloud server_configured world_ok ?req empty_disk) = Inr ?r"
    by code_simp
  then have h2: "fetch_cloud server_configured world_ok ?req empty_disk = (Inr ?r, ?s')"
    by (metis prod.collapse)
  have names: "convertedName ''models/chair.glb'' = ''chair.usdz''"
    "destObjectName ''models/chair.glb'' = ''models/chair.usdz''"
    by code_simp+
  have fresh: "\<forall>q \<in> set (fs empty_disk).
                 \<not> inside (FILES_FOLDER server_configured @ ''/'' @ randomUUID world_ok) q"
    by (simp add: empty_disk_def)
  note inst = success_body [OF h1, of server_configured world_ok empty_disk ?r ?s']
  have "\<exists>fd f url.
          formData ?req = Inr fd \<and> string_field (map_of fd ''filename'') = Some f \<and>
          body ?r = Json (JObject [(''id'', JString (randomUUID world_ok)),
                                   (''name'', JString (convertedName f)),
                                   (''uploadedUrl'', JString url),
                                   (''objectPath'', JString (destObjectName f))])"
    using inst h2 by auto
  moreover have "\<exists>r. fst (fetch_index server_configured world_ok ?req empty_disk) = Inr r \<and>
                  (status r = 400 \<or> status r = 500)"
    using inst fresh by blast
  ultimately show ?thesis using h1 ev names by simp
qed

subsection \<open>C6: storage not configured\<close>

text \<open>
  Claim C6, as amended: each of the three storage functions throws
  \<^verbatim>\<open>GCS client not initialized\<close>, doing nothing else, when the storage client is
  \<^verbatim>\<open>null\<close>; and a POST to \<^verbatim>\<open>/api/convert\<close> whose \<^verbatim>\<open>filename\<close> field is a non-empty
  string is answered, when the client or the bucket is missing, with status 500 and the
  body \<^verbatim>\<open>{message: "GCS is not configured on this server"}\<close>, in both cloud revisions.
\<close>

theorem storage_unconfigured:
  "(storage srv = None \<longrightarrow>
      downloadFromGCS srv w b n p s = (Inl not_initialized, s) \<and>
      uploadToGCS srv w b p n s = (Inl not_initialized, s) \<and>
      getSignedUrl srv w b n s = (Inl not_initialized, s)) \<and>
   (req_method req = ''POST'' \<and> pathname req = ''/api/convert'' \<and> formData req = Inr fd \<and>
    map_of fd ''filename'' = Some (FormString f) \<and> f \<noteq> [] \<and>
    (storage srv = None \<or> \<not> truthy_string (GCS_BUCKET srv)) \<longrightarrow>
      fst (fetch_cloud srv w req s) =
        Inr (Response_json (message ''GCS is not configured on this server'') 500 (CORS_HEADERS srv)) \<and>
      fst (fetch_index srv w req s) =
        Inr (Response_json (message ''GCS is not configured on this server'') 500 []))"
  by (auto simp: downloadFromGCS_def uploadToGCS_def getSignedUrl_def throw_def
      fetch_cloud_def convert_cloud_def convert_try_def fetch_index_def convert_index_try_def
      req_formData_def bind_io_def return_io_def set_dir_def try_finally_def try_catch_def
      cleanup_def split: option.splits)

text \<open>The theorem of C6 on a server without a bucket.\<close>

theorem storage_unconfigured_witness:
  "storage server_unconfigured = None \<and>
   downloadFromGCS server_unconfigured world_ok ''bkt'' ''models/chair.glb''
     ''/data/9f8b/models/chair.glb'' empty_disk = (Inl not_initialized, empty_disk) \<and>
   uploadToGCS server_unconfigured world_ok ''bkt'' ''/data/9f8b/models/chair.glb''
     ''models/chair.glb'' empty_disk = (Inl not_initialized, empty_disk) \<and>
   getSignedUrl server_unconfigured world_ok ''bkt'' ''models/chair.glb'' empty_disk
     = (Inl not_initialized, empty_disk) \<and>
   fst (fetch_cloud server_unconfigured world_ok
          (post_filename (FormString ''models/chair.glb'')) empty_disk) =
     Inr (Response_json (message ''GCS is not configured on this server'') 500
            (CORS_HEADERS server_unconfigured))"
proof -
  let ?req = "post_filename (FormString ''models/chair.glb'')"
  have h: "req_method ?req = ''POST'' \<and> pathname ?req = ''/api/convert'' \<and>
           formData ?req = Inr [(''filename'', FormString ''models/chair.glb'')] \<and>
           map_of [(''filename'', FormString ''models/chair.glb'')] ''filename''
             = Some (FormString ''models/chair.glb'') \<and>
           ''models/chair.glb'' \<noteq> [] \<and>
           (storage server_unconfigured = None \<or> \<not> truthy_string (GCS_BUCKET server_unconfigured))"
    by (simp add: post_filename_def server_unconfigured_fields)
  show ?thesis
    using storage_unconfigured [of server_unconfigured world_ok "''bkt''" "''models/chair.glb''"
        "''/data/9f8b/models/chair.glb''" empty_disk ?req
        "[(''filename'', FormString ''models/chair.glb'')]" "''models/chair.glb''"]
      h server_unconfigured_fields(1)
    by simp
qed

text \<open>
  C6 as stated covers every request with a \<^verbatim>\<open>filename\<close> field: one whose field is a
  \<^verbatim>\<open>File\<close>, or the empty string, is answered 400 before the storage is looked at.
\<close>

theorem filename_field_not_a_string:
  "fst (fetch_cloud server_unconfigured world_ok (post_filename (FormFile ''chair.glb''))
          empty_disk) =
     Inr (Response_json
            (message ''You must provide a 'filename' form field pointing to the object in GCS'')
            400 (CORS_HEADERS server_unconfigured)) \<and>
   fst (fetch_cloud server_unconfigured world_ok (post_filename (FormString [])) empty_disk) =
     Inr (Response_json
            (message ''You must provide a 'filename' form field pointing to the object in GCS'')
            400 (CORS_HEADERS server_unconfigured))"
  by code_simp

subsection \<open>C7: the converted name\<close>

text \<open>
  Claim C7: in the local variant, every 200 answer of \<^verbatim>\<open>/api/convert\<close> has the body
  \<^verbatim>\<open>{id, name}\<close> with a name ending in \<^verbatim>\<open>.usdz\<close>; and the upload of a file named
  \<^verbatim>\<open>chair.glb\<close> that is written to disk and for which the converter runs is answered
  with the name \<^verbatim>\<open>chair.usdz\<close>, whatever identifier was drawn.
\<close>

theorem usdz_name:
  "(pathname req = ''/api/convert'' \<and> fetch_local w req s = (Inr r, s') \<and> status r = 200 \<longrightarrow>
      (\<exists>nm. body r = Json (JObject [(''id'', JString (randomUUID w)), (''name'', JString nm)]) \<and>
            endsWith nm ''.usdz'')) \<and>
   (pathname req = ''/api/convert'' \<and> formData req = Inr fd \<and>
    map_of fd ''file'' = Some (FormFile ''chair.glb'') \<and>
    write_error w (LOCAL_FILES_FOLDER @ ''/'' @ randomUUID w @ ''/chair.glb'') = None \<and>
    spawn_result w [''usd_from_gltf'', LOCAL_FILES_FOLDER @ ''/'' @ randomUUID w @ ''/chair.glb'',
                    output_path (LOCAL_FILES_FOLDER @ ''/'' @ randomUUID w @ ''/chair.glb'')]
      = Exited err written \<longrightarrow>
      fst (fetch_local w req s) =
        Inr (Response_json (JObject [(''id'', JString (randomUUID w)),
                                     (''name'', JString ''chair.usdz'')]) 200 []))"
proof (intro conjI impI)
  assume a: "pathname req = ''/api/convert'' \<and> fetch_local w req s = (Inr r, s') \<and> status r = 200"
  then have "convert_local_try w req s = (Inr r, s')"
    by (auto simp: fetch_local_def try_catch_def return_io_def Response_json_def Response_def
        split: prod.splits sum.splits)
  then show "\<exists>nm. body r = Json (JObject [(''id'', JString (randomUUID w)), (''name'', JString nm)]) \<and>
            endsWith nm ''.usdz''"
    using convert_local_try_response by blast
next
  let ?fn = "LOCAL_FILES_FOLDER @ ''/'' @ randomUUID w @ ''/chair.glb''"
  assume a: "pathname req = ''/api/convert'' \<and> formData req = Inr fd \<and>
    map_of fd ''file'' = Some (FormFile ''chair.glb'') \<and>
    write_error w ?fn = None \<and>
    spawn_result w [''usd_from_gltf'', ?fn, output_path ?fn] = Exited err written"
  have pc: "name (parse ((CHR ''/'' # rest) @ CHR ''/'' # ''chair'' @ CHR ''.'' # ''glb'')) = ''chair''"
    for rest
    using parse_component [of "''chair''" "''glb''" rest] by simp
  have eq: "?fn = (CHR ''/'' # (''usr/app/gltf2usdz/files'' @ ''/'' @ randomUUID w))
                  @ CHR ''/'' # ''chair'' @ CHR ''.'' # ''glb''"
    by (simp add: LOCAL_FILES_FOLDER_def)
  have nm: "name (parse ?fn) = ''chair''"
    by (subst eq) (rule pc)
  have e: "endsWith ''chair.glb'' ''.glb''"
    by (simp add: endsWith_def suffix_def)
  have cf: "convertFile w ?fn s1 =
         (Inr ''chair.usdz'',
          (record_effect (Spawn [''usd_from_gltf'', ?fn, output_path ?fn]) s1)\<lparr>fs := fs s1 @ written\<rparr>)" for s1
    using convertFile_exited [of w ?fn err written s1] a nm by simp
  show "fst (fetch_local w req s) =
        Inr (Response_json (JObject [(''id'', JString (randomUUID w)),
                                     (''name'', JString ''chair.usdz'')]) 200 [])"
    using a e cf
    by (simp add: fetch_local_def try_catch_def convert_local_try_def req_formData_def bind_io_def
      return_io_def Bun_write_def Let_def)
qed

text \<open>The theorem of C7 at the upload of \<^verbatim>\<open>chair.glb\<close>.\<close>

theorem usdz_name_witness:
  "pathname (post_file ''chair.glb'') = ''/api/convert'' \<and>
   write_error world_ok (LOCAL_FILES_FOLDER @ ''/'' @ randomUUID world_ok @ ''/chair.glb'') = None \<and>
   fst (fetch_local world_ok (post_file ''chair.glb'') empty_disk) =
     Inr (Response_json (JObject [(''id'', JString ''9f8b''), (''name'', JString ''chair.usdz'')])
            200 [])"
proof -
  let ?req = "post_file ''chair.glb''"
  let ?fn = "LOCAL_FILES_FOLDER @ ''/'' @ randomUUID world_ok @ ''/chair.glb''"
  have h: "pathname ?req = ''/api/convert'' \<and>
           formData ?req = Inr [(''file'', FormFile ''chair.glb'')] \<and>
           map_of [(''file'', FormFile ''chair.glb'')] ''file'' = Some (FormFile ''chair.glb'') \<and>
           write_error world_ok ?fn = None \<and>
           spawn_result world_ok [''usd_from_gltf'', ?fn, output_path ?fn]
             = Exited [] [output_path ?fn]"
    by (simp add: post_file_def world_ok_def)
  have u: "randomUUID world_ok = ''9f8b''"
    by (simp add: world_ok_def)
  have "fst (fetch_local world_ok ?req empty_disk) =
        Inr (Response_json (JObject [(''id'', JString (randomUUID world_ok)),
                                     (''name'', JString ''chair.usdz'')]) 200 [])"
    using usdz_name [of ?req world_ok empty_disk _ _ "[(''file'', FormFile ''chair.glb'')]"
        "[]" "[output_path ?fn]"] h
    by blast
  then show ?thesis using h u by simp
qed

subsection \<open>C8: the expiry of a signed URL\<close>

text \<open>
  Claim C8: with a storage client, \<^verbatim>\<open>getSignedUrl\<close> asks the SDK once for a read URL
  that expires 3,600,000 milliseconds after the clock value it reads, and returns what
  the SDK answers.
\<close>

theorem signed_url_expiry:
  "storage srv = Some client \<Longrightarrow>
   getSignedUrl srv w b n s =
     (signed_url w b n \<lparr>action = Read_action, expires = Date_now w + 3600000\<rparr>,
      record_effect (Sign b n \<lparr>action = Read_action, expires = Date_now w + 3600000\<rparr>) s)"
  by (simp add: getSignedUrl_def Let_def)

text \<open>The theorem of C8 on the configured server.\<close>

theorem signed_url_expiry_witness:
  "storage server_configured = Some Storage_client \<and>
   getSignedUrl server_configured world_ok ''bkt'' ''models/chair.usdz'' empty_disk =
     (Inr ''https://bkt/models/chair.usdz'',
      \<lparr>fs = [],
       effects = [Sign ''bkt'' ''models/chair.usdz''
                    \<lparr>action = Read_action, expires = 1762003600000\<rparr>],
       tmp_dir = None\<rparr>)"
  using signed_url_expiry [OF server_configured_fields(1), of world_ok "''bkt''"
      "''models/chair.usdz''" empty_disk] server_configured_fields(1)
  by (simp add: world_ok_def empty_disk_def record_effect_def)

subsection \<open>C9: CORS headers\<close>

text \<open>
  Claim C9: in the cloud variant with CORS, the handler returns a response for every
  request (preflight, health check, every outcome of \<^verbatim>\<open>/api/convert\<close>, not found), and
  that response carries the CORS headers, with \<^verbatim>\<open>Access-Control-Allow-Origin\<close> set to
  the configured origin.
\<close>

theorem fetch_cloud_cors:
  "\<exists>r s'. fetch_cloud srv w req s = (Inr r, s') \<and> headers r = CORS_HEADERS srv \<and>
     map_of (headers r) ''Access-Control-Allow-Origin'' = Some (ALLOWED_ORIGIN srv)"
proof -
  have origin: "map_of (CORS_HEADERS srv) ''Access-Control-Allow-Origin'' = Some (ALLOWED_ORIGIN srv)"
    by (simp add: CORS_HEADERS_def)
  consider "req_method req = ''OPTIONS''"
    | "req_method req \<noteq> ''OPTIONS''" "pathname req = ''/healthz''"
    | "req_method req \<noteq> ''OPTIONS''" "pathname req \<noteq> ''/healthz''" "pathname req = ''/api/convert''"
    | "req_method req \<noteq> ''OPTIONS''" "pathname req \<noteq> ''/healthz''" "pathname req \<noteq> ''/api/convert''"
    by blast
  then show ?thesis
  proof cases
    case 1
    then show ?thesis using origin by (simp add: fetch_cloud_def return_io_def Response_def)
  next
    case 2
    then show ?thesis using origin by (simp add: fetch_cloud_def return_io_def Response_def)
  next
    case 3
    then show ?thesis using origin convert_cloud_headers [of srv w req s]
      by (auto simp: fetch_cloud_def)
  next
    case 4
    then show ?thesis using origin by (simp add: fetch_cloud_def return_io_def Response_def)
  qed
qed

text \<open>The theorem of C9 at a successful conversion.\<close>

theorem fetch_cloud_cors_witness:
  "\<exists>r s'. fetch_cloud server_configured world_ok
             (post_filename (FormString ''models/chair.glb'')) empty_disk = (Inr r, s') \<and>
          map_of (headers r) ''Access-Control-Allow-Origin'' = Some ''https://ar.example''"
  using fetch_cloud_cors [of server_configured world_ok
      "post_filename (FormString ''models/chair.glb'')" empty_disk]
  by (auto simp: server_configured_fields)

subsection \<open>C10: requests that fail validation\<close>

text \<open>
  Claim C10: in the cloud variant with cleanup, a request to \<^verbatim>\<open>/api/convert\<close> that is
  no POST, or whose \<^verbatim>\<open>filename\<close> field is missing, empty or no string, or that finds
  the storage unconfigured, leaves the disk as it was and causes no effect at all (no
  directory is made, none is removed); the variable \<^verbatim>\<open>dir\<close> is still \<^verbatim>\<open>null\<close> when the
  \<^verbatim>\<open>finally\<close> block runs (a preflight request does not reach the block).
\<close>

theorem validation_failure_leaves_disk:
  assumes "pathname req = ''/api/convert''"
    and "req_method req \<noteq> ''POST'' \<or>
         (\<exists>fd. formData req = Inr fd \<and>
            (string_field (map_of fd ''filename'') = None \<or> storage srv = None \<or>
             \<not> truthy_string (GCS_BUCKET srv)))"
  shows "fs (snd (fetch_cloud srv w req s)) = fs s \<and>
         effects (snd (fetch_cloud srv w req s)) = effects s \<and>
         (tmp_dir (snd (fetch_cloud srv w req s)) = None \<or> req_method req = ''OPTIONS'')"
  using assms
  by (auto simp: fetch_cloud_def convert_cloud_def convert_try_def
      req_formData_def bind_io_def return_io_def set_dir_def try_finally_def try_catch_def
      cleanup_def split: option.splits)

text \<open>The theorem of C10 on a server without a bucket.\<close>

theorem validation_failure_leaves_disk_witness:
  "pathname (post_filename (FormString ''models/chair.glb'')) = ''/api/convert'' \<and>
   storage server_unconfigured = None \<and>
   fs (snd (fetch_cloud server_unconfigured world_ok
              (post_filename (FormString ''models/chair.glb'')) empty_disk)) = fs empty_disk \<and>
   effects (snd (fetch_cloud server_unconfigured world_ok
                   (post_filename (FormString ''models/chair.glb'')) empty_disk))
     = effects empty_disk \<and>
   tmp_dir (snd (fetch_cloud server_unconfigured world_ok
                   (post_filename (FormString ''models/chair.glb'')) empty_disk)) = None"
proof -
  let ?req = "post_filename (FormString ''models/chair.glb'')"
  have h1: "pathname ?req = ''/api/convert''"
    by (simp add: post_filename_def)
  have h2: "req_method ?req \<noteq> ''POST'' \<or>
         (\<exists>fd. formData ?req = Inr fd \<and>
            (string_field (map_of fd ''filename'') = None \<or> storage server_unconfigured = None \<or>
             \<not> truthy_string (GCS_BUCKET server_unconfigured)))"
    by (simp add: post_filename_def server_unconfigured_fields)
  have m: "req_method ?req \<noteq> ''OPTIONS''"
    by (simp add: post_filename_def)
  show ?thesis
    using validation_failure_leaves_disk [OF h1 h2, of world_ok empty_disk] h1 m
      server_unconfigured_fields(1)
    by simp
qed

end
